theory Spec2Isabelle
  imports Main "HOL-Library.Word"
begin

section \<open>Common values\<close>

text \<open>
  Go byte slices are lists of 8-bit words, Go strings are Isabelle strings.
  \<^verbatim>\<open>time.Time\<close> and \<^verbatim>\<open>time.Duration\<close> are integers counting nanoseconds.
  A Go \<^verbatim>\<open>error\<close> value is an element of \<open>error\<close>; the nil error is \<open>None\<close> of
  \<open>error option\<close>. A run-time panic is a value of \<open>panic\<close>.
\<close>

type_synonym byte = "8 word"
type_synonym Time = int
type_synonym Duration = int

datatype error =
    Err string
  | EOF
  | ErrUnexpectedEOF
  | Joined "error list"

datatype panic =
    NilPointerDereference
  | SliceBoundsOutOfRange
  | PanicMsg string

section \<open>Sink cluster (package sinkcluster)\<close>

text \<open>
  \<^verbatim>\<open>SinkEntry\<close> is declared in another file of the package; its three fields are the
  ones \<^verbatim>\<open>WriteIPSetToDisk\<close> fills in.
\<close>

record SinkEntry =
  RecordingStart :: Time
  RecordingEnd :: Time
  Recorded :: "byte list"

text \<open>
  \<^verbatim>\<open>type sink struct { writer WriteSyncer; current *ipsetsink.IPSetSink }\<close>.
  The writer and the probabilistic set are kept abstract (\<open>'w\<close>, \<open>'s\<close>).
\<close>

record ('w, 's) sink =
  writer :: 'w
  current :: 's

text \<open>
  \<^verbatim>\<open>type ClusterWriter struct { sinks map[string]*sink; lastWriteTime; writeInterval; lock }\<close>.
  The map is an association list with distinct keys; its order is the order in which
  \<^verbatim>\<open>range c.sinks\<close> visits the entries in the call at hand (Go leaves it unspecified, so
  every theorem below holds for every order). The mutex is not modelled: the model is
  sequential.
\<close>

record ('w, 's) ClusterWriter =
  sinks :: "(string \<times> ('w, 's) sink) list"
  lastWriteTime :: Time
  writeInterval :: Duration

text \<open>
  The collaborators the cluster calls, as parameters:
  \<^item> \<open>ipset_Dump\<close>, \<open>ipset_Reset\<close>, \<open>ipset_AddIPToSet\<close>: the methods of
    \<^verbatim>\<open>ipsetsink.IPSetSink\<close> (package \<^verbatim>\<open>common/ipsetsink\<close>, not among the sources);
  \<^item> \<open>json_Marshal\<close>: \<^verbatim>\<open>encoding/json.Marshal\<close> on a \<^verbatim>\<open>*SinkEntry\<close>;
  \<^item> \<open>writer_Write\<close>, \<open>writer_Sync\<close>: the two methods of the \<^verbatim>\<open>WriteSyncer\<close> interface.
    By the contract of \<^verbatim>\<open>io.Writer\<close> a short write returns a non-nil error, so the
    byte count is not modelled: \<open>None\<close> is a complete write.
\<close>

record ('w, 's) sink_ops =
  ipset_Dump :: "'s \<Rightarrow> error + byte list"
  ipset_Reset :: "'s \<Rightarrow> 's"
  ipset_AddIPToSet :: "'s \<Rightarrow> string \<Rightarrow> 's"
  json_Marshal :: "SinkEntry \<Rightarrow> error + byte list"
  writer_Write :: "'w \<Rightarrow> byte list \<Rightarrow> error option \<times> 'w"
  writer_Sync :: "'w \<Rightarrow> error option \<times> 'w"

text \<open>The calls a flush makes on its collaborators and on the cluster, in order.\<close>

datatype cluster_event =
    Dumped string
  | Copied string "byte list"
  | Synced string
  | ResetSet string
  | Logged
  | LastWriteTimeSet Time
  | AddedIP string string

text \<open>
  \<^verbatim>\<open>io.Copy(sink.writer, bytes.NewReader(jsonData))\<close>: the reader hands the whole slice
  to one \<^verbatim>\<open>Write\<close> call and \<^verbatim>\<open>Copy\<close> returns that call's error.
\<close>

definition io_Copy :: "('w, 's) sink_ops \<Rightarrow> 'w \<Rightarrow> byte list \<Rightarrow> error option \<times> 'w" where
  "io_Copy ops w jsonData = writer_Write ops w jsonData"

text \<open>
  The body of the loop \<^verbatim>\<open>for _, sink := range c.sinks\<close> of \<^verbatim>\<open>WriteIPSetToDisk\<close>.
  The result is \<open>(completed, sinks, events)\<close>: \<open>completed\<close> is \<open>False\<close> when one of the three
  \<^verbatim>\<open>return\<close> statements was taken.
\<close>

fun flushSinks ::
  "('w, 's) sink_ops \<Rightarrow> Time \<Rightarrow> Time \<Rightarrow> (string \<times> ('w, 's) sink) list
    \<Rightarrow> bool \<times> (string \<times> ('w, 's) sink) list \<times> cluster_event list" where
  "flushSinks ops lastWrite currentTime [] = (True, [], [])"
| "flushSinks ops lastWrite currentTime ((name, snk) # rest) =
    (case ipset_Dump ops (current snk) of
       Inl err \<Rightarrow> (False, (name, snk) # rest, [Dumped name, Logged])
     | Inr data \<Rightarrow>
        (case json_Marshal ops
                \<lparr>RecordingStart = lastWrite, RecordingEnd = currentTime, Recorded = data\<rparr> of
           Inl err \<Rightarrow> (False, (name, snk) # rest, [Dumped name, Logged])
         | Inr jsonData \<Rightarrow>
            (case io_Copy ops (writer snk) (jsonData @ [10]) of
               (Some err, w) \<Rightarrow>
                 (False, (name, snk\<lparr>writer := w\<rparr>) # rest,
                  [Dumped name, Copied name (jsonData @ [10]), Logged])
             | (None, w) \<Rightarrow>
                 (let (syncErr, w') = writer_Sync ops w;
                      snk' = \<lparr>writer = w', current = ipset_Reset ops (current snk)\<rparr>;
                      (completed, rest', evs) = flushSinks ops lastWrite currentTime rest
                  in (completed, (name, snk') # rest',
                      [Dumped name, Copied name (jsonData @ [10]), Synced name, ResetSet name]
                        @ evs)))))"

text \<open>
  \<^verbatim>\<open>func (c *ClusterWriter) WriteIPSetToDisk()\<close>; \<open>currentTime\<close> is the value
  \<^verbatim>\<open>time.Now()\<close> returns in its first line.
\<close>

definition WriteIPSetToDisk ::
  "('w, 's) sink_ops \<Rightarrow> Time \<Rightarrow> ('w, 's) ClusterWriter
    \<Rightarrow> ('w, 's) ClusterWriter \<times> cluster_event list" where
  "WriteIPSetToDisk ops currentTime c =
    (case flushSinks ops (lastWriteTime c) currentTime (sinks c) of
       (True, sinks', evs) \<Rightarrow>
         (c\<lparr>sinks := sinks', lastWriteTime := currentTime\<rparr>,
          evs @ [LastWriteTimeSet currentTime])
     | (False, sinks', evs) \<Rightarrow> (c\<lparr>sinks := sinks'\<rparr>, evs))"




fun resetNames :: "cluster_event list \<Rightarrow> string list" where
  "resetNames [] = []"
| "resetNames (ResetSet n # evs) = n # resetNames evs"
| "resetNames (_ # evs) = resetNames evs"

fun copiedNames :: "cluster_event list \<Rightarrow> string list" where
  "copiedNames [] = []"
| "copiedNames (Copied n d # evs) = n # copiedNames evs"
| "copiedNames (_ # evs) = copiedNames evs"

fun dumpedNames :: "cluster_event list \<Rightarrow> string list" where
  "dumpedNames [] = []"
| "dumpedNames (Dumped n # evs) = n # dumpedNames evs"
| "dumpedNames (_ # evs) = dumpedNames evs"

text \<open>
  A sink fails in a flush when its \<^verbatim>\<open>Dump\<close>, the marshalling of its entry or the write
  of the line returns an error.
\<close>

definition sinkFails :: "('w, 's) sink_ops \<Rightarrow> Time \<Rightarrow> Time \<Rightarrow> ('w, 's) sink \<Rightarrow> bool" where
  "sinkFails ops lastWrite currentTime snk =
    (case ipset_Dump ops (current snk) of
       Inl err \<Rightarrow> True
     | Inr data \<Rightarrow>
        (case json_Marshal ops
                \<lparr>RecordingStart = lastWrite, RecordingEnd = currentTime, Recorded = data\<rparr> of
           Inl err \<Rightarrow> True
         | Inr jsonData \<Rightarrow> fst (io_Copy ops (writer snk) (jsonData @ [10])) \<noteq> None))"

text \<open>
  A concrete cluster on which the model runs: a writer is a flag (the disk is broken) and
  the bytes written so far, a set is the list of the addresses added, \<^verbatim>\<open>Dump\<close> gives
  their bytes and fails on an empty address, and \<^verbatim>\<open>Sync\<close> always fails.
\<close>

definition demo_ops :: "(bool \<times> byte list, string list) sink_ops" where
  "demo_ops =
    \<lparr>ipset_Dump = (\<lambda>s. if [] \<in> set s then Inl (Err ''dump'')
                         else Inr (concat (map (map (\<lambda>ch. of_nat (of_char ch))) s))),
     ipset_Reset = (\<lambda>s. []),
     ipset_AddIPToSet = (\<lambda>s ip. s @ [ip]),
     json_Marshal = (\<lambda>e. Inr (Recorded e)),
     writer_Write = (\<lambda>(broken, buf) d.
        if broken then (Some (Err ''write''), (broken, buf)) else (None, (broken, buf @ d))),
     writer_Sync = (\<lambda>w. (Some (Err ''sync''), w))\<rparr>"

definition demo_cluster :: "(bool \<times> byte list, string list) ClusterWriter" where
  "demo_cluster =
    \<lparr>sinks = [(''a'', \<lparr>writer = (False, []), current = [''1.2'']\<rparr>),
              (''b'', \<lparr>writer = (False, []), current = [''7'']\<rparr>)],
     lastWriteTime = 0, writeInterval = 60\<rparr>"


section \<open>Remote address of a session description (proxy/lib/webrtcconn.go)\<close>

text \<open>
  The parsed session description of \<^verbatim>\<open>github.com/pion/sdp\<close>, cut down to the fields
  \<^verbatim>\<open>remoteIPFromSDP\<close> reads: the media descriptions in order, each with its attributes
  in order, each attribute a key and a value.
\<close>

record Attribute =
  Key :: string
  Value :: string

record MediaDescription =
  Attributes :: "Attribute list"

record sdp_SessionDescription =
  MediaDescriptions :: "MediaDescription list"

text \<open>
  \<^verbatim>\<open>var remoteIPPatterns = []*regexp.Regexp{ /* IPv4 */ ..., /* IPv6 */ ... }\<close>: the two
  compiled expressions for the lines \<^verbatim>\<open>c=IN IP4 ...\<close> and \<^verbatim>\<open>c=IN IP6 ...\<close>, in this order.
  Each has two groups, so a match is the whole match and the two groups.
\<close>

datatype pattern = IPv4Pattern | IPv6Pattern

definition remoteIPPatterns :: "pattern list" where
  "remoteIPPatterns = [IPv4Pattern, IPv6Pattern]"

text \<open>
  The library functions \<^verbatim>\<open>remoteIPFromSDP\<close> and \<^verbatim>\<open>isRemoteAddress\<close> call, as parameters
  over an abstract type \<open>'ip\<close> of addresses (\<^verbatim>\<open>net.IP\<close>, nil being \<open>None\<close>):
  \<^item> \<open>sdp_Unmarshal\<close>: \<^verbatim>\<open>desc.Unmarshal([]byte(str))\<close>;
  \<^item> \<open>ice_UnmarshalCandidate\<close>: \<^verbatim>\<open>ice.UnmarshalCandidate(a.Value)\<close> followed by
    \<^verbatim>\<open>c.Address()\<close>;
  \<^item> \<open>net_ParseIP\<close>: \<^verbatim>\<open>net.ParseIP\<close>;
  \<^item> \<open>util_IsLocal\<close>: \<^verbatim>\<open>util.IsLocal\<close> (package \<^verbatim>\<open>common/util\<close>, not among the sources);
  \<^item> \<open>ip_IsUnspecified\<close>, \<open>ip_IsLoopback\<close>: the methods of \<^verbatim>\<open>net.IP\<close>;
  \<^item> \<open>FindStringSubmatch\<close>: \<^verbatim>\<open>pattern.FindStringSubmatch(str)\<close>, the leftmost match.
\<close>

record 'ip sdp_env =
  sdp_Unmarshal :: "string \<Rightarrow> error + sdp_SessionDescription"
  ice_UnmarshalCandidate :: "string \<Rightarrow> error + string"
  net_ParseIP :: "string \<Rightarrow> 'ip option"
  util_IsLocal :: "'ip \<Rightarrow> bool"
  ip_IsUnspecified :: "'ip \<Rightarrow> bool"
  ip_IsLoopback :: "'ip \<Rightarrow> bool"
  FindStringSubmatch :: "pattern \<Rightarrow> string \<Rightarrow> (string \<times> string \<times> string) option"

text \<open>\<^verbatim>\<open>func isRemoteAddress(ip net.IP) bool\<close> (proxy/snowflake.go).\<close>

definition isRemoteAddress :: "'ip sdp_env \<Rightarrow> 'ip \<Rightarrow> bool" where
  "isRemoteAddress env ip =
    (\<not> (util_IsLocal env ip \<or> ip_IsUnspecified env ip \<or> ip_IsLoopback env ip))"

text \<open>\<^verbatim>\<open>a.IsICECandidate()\<close> of pion: the attribute's key is \<^verbatim>\<open>candidate\<close>.\<close>

definition IsICECandidate :: "Attribute \<Rightarrow> bool" where
  "IsICECandidate a = (Key a = ''candidate'')"

text \<open>
  The inner loop \<^verbatim>\<open>for _, a := range m.Attributes\<close>: \<open>Some ip\<close> when it reaches
  \<^verbatim>\<open>return ip\<close>, \<open>None\<close> when it runs to its end.
\<close>

fun scanAttributes :: "'ip sdp_env \<Rightarrow> Attribute list \<Rightarrow> 'ip option" where
  "scanAttributes env [] = None"
| "scanAttributes env (a # rest) =
    (if IsICECandidate a then
       (case ice_UnmarshalCandidate env (Value a) of
          Inr address \<Rightarrow>
            (case net_ParseIP env address of
               Some ip \<Rightarrow> if isRemoteAddress env ip then Some ip else scanAttributes env rest
             | None \<Rightarrow> scanAttributes env rest)
        | Inl err \<Rightarrow> scanAttributes env rest)
     else scanAttributes env rest)"

text \<open>The outer loop \<^verbatim>\<open>for _, m := range desc.MediaDescriptions\<close>.\<close>

fun scanMediaDescriptions :: "'ip sdp_env \<Rightarrow> MediaDescription list \<Rightarrow> 'ip option" where
  "scanMediaDescriptions env [] = None"
| "scanMediaDescriptions env (m # rest) =
    (case scanAttributes env (Attributes m) of
       Some ip \<Rightarrow> Some ip
     | None \<Rightarrow> scanMediaDescriptions env rest)"

text \<open>The loop \<^verbatim>\<open>for _, pattern := range remoteIPPatterns\<close>; \<^verbatim>\<open>m[1]\<close> is the first group.\<close>

fun scanPatterns :: "'ip sdp_env \<Rightarrow> string \<Rightarrow> pattern list \<Rightarrow> 'ip option" where
  "scanPatterns env str [] = None"
| "scanPatterns env str (p # rest) =
    (case FindStringSubmatch env p str of
       Some (m0, m1, m2) \<Rightarrow>
         (case net_ParseIP env m1 of
            Some ip \<Rightarrow> if isRemoteAddress env ip then Some ip else scanPatterns env str rest
          | None \<Rightarrow> scanPatterns env str rest)
     | None \<Rightarrow> scanPatterns env str rest)"

text \<open>\<^verbatim>\<open>func remoteIPFromSDP(str string) net.IP\<close>.\<close>

definition remoteIPFromSDP :: "'ip sdp_env \<Rightarrow> string \<Rightarrow> 'ip option" where
  "remoteIPFromSDP env str =
    (case sdp_Unmarshal env str of
       Inl err \<Rightarrow> None
     | Inr desc \<Rightarrow>
        (case scanMediaDescriptions env (MediaDescriptions desc) of
           Some ip \<Rightarrow> Some ip
         | None \<Rightarrow> scanPatterns env str remoteIPPatterns))"

subsection \<open>The extraction as the specification words it\<close>

text \<open>
  The addresses of the ICE candidates of a description, in the order of the media
  descriptions and of their attributes: the candidate attributes whose value parses as
  a candidate and whose address parses as an IP address.
\<close>

definition candidateAddresses :: "'ip sdp_env \<Rightarrow> sdp_SessionDescription \<Rightarrow> 'ip list" where
  "candidateAddresses env desc =
    List.map_filter
      (\<lambda>a. case ice_UnmarshalCandidate env (Value a) of
              Inl err \<Rightarrow> None
            | Inr address \<Rightarrow> net_ParseIP env address)
      (filter IsICECandidate (concat (map Attributes (MediaDescriptions desc))))"

text \<open>
  The addresses of the connection-data lines: for the IPv4 and then the IPv6 expression,
  the first group of its match, when there is a match and the group parses.
\<close>

definition connectionAddresses :: "'ip sdp_env \<Rightarrow> string \<Rightarrow> 'ip list" where
  "connectionAddresses env str =
    List.map_filter
      (\<lambda>p. case FindStringSubmatch env p str of
              None \<Rightarrow> None
            | Some (m0, m1, m2) \<Rightarrow> net_ParseIP env m1)
      remoteIPPatterns"

text \<open>
  The first remote candidate address, else the first remote connection address,
  else none; for a description \<open>desc\<close> of the text.
\<close>

definition remoteIP_spec :: "'ip sdp_env \<Rightarrow> sdp_SessionDescription \<Rightarrow> string \<Rightarrow> 'ip option" where
  "remoteIP_spec env desc str =
    (case List.find (isRemoteAddress env) (candidateAddresses env desc) of
       Some ip \<Rightarrow> Some ip
     | None \<Rightarrow> List.find (isRemoteAddress env) (connectionAddresses env str))"

text \<open>
  The same for every text, as the claim is worded: a text that does not parse has no
  candidate, so the connection-data lines decide.
\<close>

definition remoteIP_every_text :: "'ip sdp_env \<Rightarrow> string \<Rightarrow> 'ip option" where
  "remoteIP_every_text env str =
    (case sdp_Unmarshal env str of
       Inr desc \<Rightarrow> remoteIP_spec env desc str
     | Inl err \<Rightarrow> List.find (isRemoteAddress env) (connectionAddresses env str))"

subsection \<open>A concrete environment\<close>

text \<open>
  Stand-ins for the libraries on which the model runs, with addresses as their text:
  a text parses when it starts with \<^verbatim>\<open>v=\<close> (as pion requires of the first line), and
  every such text has the description \<open>demo_desc\<close>; a candidate value is its address;
  the IPv4 expression matches a text that starts with \<^verbatim>\<open>c=IN IP4\<close> and a blank, its group
  being the characters up to the next line feed.
\<close>

definition demo_desc :: sdp_SessionDescription where
  "demo_desc =
    \<lparr>MediaDescriptions =
      [\<lparr>Attributes = [\<lparr>Key = ''mid'', Value = ''0''\<rparr>,
                      \<lparr>Key = ''candidate'', Value = ''192.168.1.5''\<rparr>]\<rparr>,
       \<lparr>Attributes = [\<lparr>Key = ''candidate'', Value = ''''\<rparr>,
                      \<lparr>Key = ''candidate'', Value = ''8.8.4.4''\<rparr>,
                      \<lparr>Key = ''candidate'', Value = ''9.9.9.9''\<rparr>]\<rparr>]\<rparr>"

definition demo_sdp_env :: "string sdp_env" where
  "demo_sdp_env =
    \<lparr>sdp_Unmarshal = (\<lambda>str. if take 2 str = ''v='' then Inr demo_desc
                              else Inl (Err ''sdp: invalid syntax'')),
     ice_UnmarshalCandidate = (\<lambda>v. if v = [] then Inl (Err ''candidate'') else Inr v),
     net_ParseIP = (\<lambda>s. if s = [] then None else Some s),
     util_IsLocal = (\<lambda>ip. take 8 ip = ''192.168.''),
     ip_IsUnspecified = (\<lambda>ip. ip = ''0.0.0.0''),
     ip_IsLoopback = (\<lambda>ip. take 4 ip = ''127.''),
     FindStringSubmatch = (\<lambda>p str.
        if p = IPv4Pattern \<and> take 9 str = ''c=IN IP4 ''
        then Some (takeWhile (\<lambda>ch. ch \<noteq> CHR 0x0A) str @ [CHR 0x0A],
                   takeWhile (\<lambda>ch. ch \<noteq> CHR 0x0A) (drop 9 str), [CHR 0x0A])
        else None)\<rparr>"

section \<open>The peer session (type webRTCConn)\<close>

text \<open>
  \<^verbatim>\<open>webrtc.SessionDescription\<close>, of which the code reads the field \<^verbatim>\<open>SDP\<close>.
\<close>

record webrtc_SessionDescription =
  SDP :: string

text \<open>
  The peer connection, as far as the session uses it: \<open>remoteDescription\<close> is what
  \<^verbatim>\<open>pc.RemoteDescription()\<close> returns, a pointer that is nil (\<open>None\<close>) as long as no remote
  description has been applied; \<open>pc_closeCalls\<close> counts the calls of \<^verbatim>\<open>pc.Close()\<close>.
  Of the pipe reader only the calls of \<^verbatim>\<open>pr.Close()\<close> are counted.
\<close>

record PeerConnection =
  remoteDescription :: "webrtc_SessionDescription option"
  pc_closeCalls :: nat

record PipeReader =
  pr_closeCalls :: nat

text \<open>
  \<^verbatim>\<open>type webRTCConn struct\<close> of proxy/lib/webrtcconn.go. \<open>dc\<close> is the pointer to the data
  channel (an abstract \<open>'dc\<close>), nil after \<^verbatim>\<open>OnClose\<close>; \<open>once\<close> is whether the
  \<^verbatim>\<open>sync.Once\<close> has run; \<open>activity\<close> and \<open>sendMoreCh\<close> are the numbers of values buffered
  in the two channels (of capacity 100 and 1); \<open>cancelCalls\<close> counts the calls of
  \<^verbatim>\<open>cancelTimeoutLoop\<close>; \<open>bytesInbound\<close> is the total handed to \<^verbatim>\<open>bytesLogger.AddInbound\<close>.
\<close>

record 'dc webRTCConn =
  dc :: "'dc option"
  pc :: PeerConnection
  pr :: PipeReader
  once :: bool
  activity :: nat
  sendMoreCh :: nat
  cancelCalls :: nat
  bytesInbound :: int

text \<open>The struct of the same name in proxy/snowflake.go: \<^verbatim>\<open>dc\<close>, \<^verbatim>\<open>pc\<close>, \<^verbatim>\<open>pr\<close>, \<^verbatim>\<open>lock\<close>, \<^verbatim>\<open>once\<close>.\<close>

record 'dc webRTCConn_main =
  dc_main :: "'dc option"
  pc_main :: PeerConnection
  pr_main :: PipeReader
  once_main :: bool

text \<open>The two methods of \<^verbatim>\<open>webrtc.DataChannel\<close> that \<^verbatim>\<open>Write\<close> calls.\<close>

record 'dc dc_ops =
  dc_Send :: "'dc \<Rightarrow> byte list \<Rightarrow> error option \<times> 'dc"
  dc_BufferedAmount :: "'dc \<Rightarrow> nat"

definition maxBufferedAmount :: nat where
  "maxBufferedAmount = 512 * 1024"

text \<open>
  \<^verbatim>\<open>func (c *webRTCConn) Write(b []byte) (int, error)\<close> of proxy/lib/webrtcconn.go.
  The send on \<open>activity\<close> is the non-blocking one of the \<^verbatim>\<open>select\<close> with \<^verbatim>\<open>default\<close>.
  The receive \<^verbatim>\<open><-c.sendMoreCh\<close> takes the buffered value when there is one; otherwise it
  waits for the low-water callback of the data channel, which runs elsewhere:
  \<open>signalled\<close> tells whether that callback sends a value while the call waits. The
  result is \<open>None\<close> when the call waits forever, and \<open>Some (n, err)\<close> when it returns.
\<close>

definition Write ::
  "'dc dc_ops \<Rightarrow> bool \<Rightarrow> 'dc webRTCConn \<Rightarrow> byte list
    \<Rightarrow> (nat \<times> error option) option \<times> 'dc webRTCConn" where
  "Write ops signalled c b =
    (let c1 = c\<lparr>bytesInbound := bytesInbound c + int (length b)\<rparr>;
         c2 = (if activity c1 < 100 then c1\<lparr>activity := activity c1 + 1\<rparr> else c1)
     in (case dc c2 of
           None \<Rightarrow> (Some (length b, None), c2)
         | Some d \<Rightarrow>
            (let (sendErr, d') = dc_Send ops d b;
                 c3 = c2\<lparr>dc := Some d'\<rparr>
             in if maxBufferedAmount \<le> dc_BufferedAmount ops d' then
                  (if 0 < sendMoreCh c3
                   then (Some (length b, None), c3\<lparr>sendMoreCh := sendMoreCh c3 - 1\<rparr>)
                   else if signalled then (Some (length b, None), c3)
                   else (None, c3))
                else (Some (length b, None), c3))))"

text \<open>
  When the call above is left waiting for good: the data channel is live, the buffered
  amount after the send has reached \<open>maxBufferedAmount\<close>, no value is buffered in
  \<open>sendMoreCh\<close> and none arrives.
\<close>

definition Write_waits :: "'dc dc_ops \<Rightarrow> bool \<Rightarrow> 'dc webRTCConn \<Rightarrow> byte list \<Rightarrow> bool" where
  "Write_waits ops signalled c b =
    (case dc c of
       None \<Rightarrow> False
     | Some d \<Rightarrow>
        maxBufferedAmount \<le> dc_BufferedAmount ops (snd (dc_Send ops d b))
        \<and> sendMoreCh c = 0 \<and> \<not> signalled)"

text \<open>\<^verbatim>\<open>func (c *webRTCConn) Write(b []byte) (int, error)\<close> of proxy/snowflake.go.\<close>

definition Write_main ::
  "'dc dc_ops \<Rightarrow> 'dc webRTCConn_main \<Rightarrow> byte list
    \<Rightarrow> (nat \<times> error option) \<times> 'dc webRTCConn_main" where
  "Write_main ops c b =
    (case dc_main c of
       None \<Rightarrow> ((length b, None), c)
     | Some d \<Rightarrow>
        (let (sendErr, d') = dc_Send ops d b
         in ((length b, None), c\<lparr>dc_main := Some d'\<rparr>)))"

text \<open>
  The \<^verbatim>\<open>OnClose\<close> callback of the data channel, as far as the session's own fields go:
  \<^verbatim>\<open>conn.dc = nil\<close>.
\<close>

definition OnClose :: "'dc webRTCConn \<Rightarrow> 'dc webRTCConn" where
  "OnClose c = c\<lparr>dc := None\<rparr>"

definition OnClose_main :: "'dc webRTCConn_main \<Rightarrow> 'dc webRTCConn_main" where
  "OnClose_main c = c\<lparr>dc_main := None\<rparr>"

text \<open>\<^verbatim>\<open>errors.Join\<close>: nil when every error is nil, else the non-nil errors joined.\<close>

definition errors_Join :: "error option list \<Rightarrow> error option" where
  "errors_Join errs =
    (case List.map_filter (\<lambda>e. e) errs of
       [] \<Rightarrow> None
     | es \<Rightarrow> Some (Joined es))"

text \<open>
  \<^verbatim>\<open>func (c *webRTCConn) Close() (err error)\<close> of proxy/lib/webrtcconn.go: the function
  given to \<^verbatim>\<open>c.once.Do\<close> runs when the \<^verbatim>\<open>Once\<close> has not run before. \<open>prErr\<close> and \<open>pcErr\<close>
  are what \<^verbatim>\<open>c.pr.Close()\<close> and \<^verbatim>\<open>c.pc.Close()\<close> return when they are called. The named
  result \<^verbatim>\<open>err\<close> stays nil when the function does not run.
\<close>

definition Close ::
  "error option \<Rightarrow> error option \<Rightarrow> 'dc webRTCConn \<Rightarrow> error option \<times> 'dc webRTCConn" where
  "Close prErr pcErr c =
    (if once c then (None, c)
     else (errors_Join [prErr, pcErr],
           c\<lparr>once := True,
             cancelCalls := cancelCalls c + 1,
             pr := (pr c)\<lparr>pr_closeCalls := pr_closeCalls (pr c) + 1\<rparr>,
             pc := (pc c)\<lparr>pc_closeCalls := pc_closeCalls (pc c) + 1\<rparr>\<rparr>))"

text \<open>\<^verbatim>\<open>func (c *webRTCConn) Close() (err error)\<close> of proxy/snowflake.go.\<close>

definition Close_main ::
  "error option \<Rightarrow> 'dc webRTCConn_main \<Rightarrow> error option \<times> 'dc webRTCConn_main" where
  "Close_main pcErr c =
    (if once_main c then (None, c)
     else (pcErr,
           c\<lparr>once_main := True,
             pc_main := (pc_main c)\<lparr>pc_closeCalls := pc_closeCalls (pc_main c) + 1\<rparr>\<rparr>))"

text \<open>\<open>n\<close> calls of \<^verbatim>\<open>Close\<close> in a row: the errors they return, in order, and the session after.\<close>

fun Close_times ::
  "nat \<Rightarrow> error option \<Rightarrow> error option \<Rightarrow> 'dc webRTCConn
    \<Rightarrow> error option list \<times> 'dc webRTCConn" where
  "Close_times 0 prErr pcErr c = ([], c)"
| "Close_times (Suc n) prErr pcErr c =
    (let (err, c') = Close prErr pcErr c;
         (errs, c'') = Close_times n prErr pcErr c'
     in (err # errs, c''))"

fun Close_main_times ::
  "nat \<Rightarrow> error option \<Rightarrow> 'dc webRTCConn_main \<Rightarrow> error option list \<times> 'dc webRTCConn_main" where
  "Close_main_times 0 pcErr c = ([], c)"
| "Close_main_times (Suc n) pcErr c =
    (let (err, c') = Close_main pcErr c;
         (errs, c'') = Close_main_times n pcErr c'
     in (err # errs, c''))"

text \<open>
  \<^verbatim>\<open>func (c *webRTCConn) RemoteIP() net.IP\<close>:
  \<^verbatim>\<open>return remoteIPFromSDP(c.pc.RemoteDescription().SDP)\<close>. Reading \<^verbatim>\<open>.SDP\<close> through the nil
  pointer that \<^verbatim>\<open>RemoteDescription()\<close> returns before a remote description is set is a
  nil pointer dereference.
\<close>

definition RemoteIP :: "'ip sdp_env \<Rightarrow> 'dc webRTCConn \<Rightarrow> panic + 'ip option" where
  "RemoteIP env c =
    (case remoteDescription (pc c) of
       None \<Rightarrow> Inl NilPointerDereference
     | Some desc \<Rightarrow> Inr (remoteIPFromSDP env (SDP desc)))"

text \<open>
  Concrete sessions: a data channel is the number of bytes it has buffered, and
  nothing drains it.
\<close>

definition demo_dc_ops :: "nat dc_ops" where
  "demo_dc_ops =
    \<lparr>dc_Send = (\<lambda>d b. (None, d + length b)),
     dc_BufferedAmount = (\<lambda>d. d)\<rparr>"

definition demo_conn :: "nat webRTCConn" where
  "demo_conn =
    \<lparr>dc = Some 0,
     pc = \<lparr>remoteDescription = Some \<lparr>SDP = ''v=0''\<rparr>, pc_closeCalls = 0\<rparr>,
     pr = \<lparr>pr_closeCalls = 0\<rparr>,
     once = False, activity = 0, sendMoreCh = 0, cancelCalls = 0, bytesInbound = 0\<rparr>"

definition demo_conn_main :: "nat webRTCConn_main" where
  "demo_conn_main =
    \<lparr>dc_main = Some 0,
     pc_main = \<lparr>remoteDescription = Some \<lparr>SDP = ''v=0''\<rparr>, pc_closeCalls = 0\<rparr>,
     pr_main = \<lparr>pr_closeCalls = 0\<rparr>,
     once_main = False\<rparr>"

section \<open>The broker client (proxy/snowflake.go)\<close>

subsection \<open>Readers\<close>

text \<open>
  An \<^verbatim>\<open>io.Reader\<close> is the script of what it has to deliver: a list of chunks, each a
  piece of data and the error it reports together with the last byte of the piece
  (\<open>None\<close> for nil). A \<^verbatim>\<open>Read\<close> into a buffer of \<open>n\<close> bytes returns the whole first chunk
  with its error when it fits, else the first \<open>n\<close> bytes of it with a nil error; a
  reader whose script is used up returns \<^verbatim>\<open>(0, io.EOF)\<close>. An error that comes on its own,
  after the data, is a chunk with no data.
\<close>

type_synonym reader = "(byte list \<times> error option) list"

fun reader_Read :: "reader \<Rightarrow> nat \<Rightarrow> (byte list \<times> error option) \<times> reader" where
  "reader_Read [] n = (([], Some EOF), [])"
| "reader_Read ((data, err) # rest) n =
    (if length data \<le> n then ((data, err), rest)
     else ((take n data, None), (drop n data, err) # rest))"

text \<open>
  \<^verbatim>\<open>io.LimitedReader{R, N}\<close> and its method \<^verbatim>\<open>Read(p)\<close>, for \<^verbatim>\<open>len(p) = plen\<close>:
  \<^verbatim>\<open>if l.N <= 0 { return 0, EOF }; if int64(len(p)) > l.N { p = p[0:l.N] };\<close>
  \<^verbatim>\<open>n, err = l.R.Read(p); l.N -= int64(n); return\<close>.
\<close>

record LimitedReader =
  R :: reader
  N :: int

definition LimitedReader_Read ::
  "LimitedReader \<Rightarrow> nat \<Rightarrow> (byte list \<times> error option) \<times> LimitedReader" where
  "LimitedReader_Read l plen =
    (if N l \<le> 0 then (([], Some EOF), l)
     else (let plen' = (if N l < int plen then nat (N l) else plen);
               ((data, err), r') = reader_Read (R l) plen'
           in ((data, err), \<lparr>R = r', N = N l - int (length data)\<rparr>)))"

fun script_size :: "reader \<Rightarrow> nat" where
  "script_size [] = 0"
| "script_size ((data, err) # rest) = Suc (length data) + script_size rest"

text \<open>
  \<^verbatim>\<open>ioutil.ReadAll\<close> on a limited reader: it reads into the free part of its buffer until
  a \<^verbatim>\<open>Read\<close> returns an error, and returns what it has read with that error, or with nil
  when the error is \<^verbatim>\<open>io.EOF\<close>. The free part is never empty; its size is the business of
  the buffer's growth, here \<open>Suc (free (length b))\<close> for a parameter \<open>free\<close>.
\<close>

function ReadAll ::
  "(nat \<Rightarrow> nat) \<Rightarrow> LimitedReader \<Rightarrow> byte list \<Rightarrow> byte list \<times> error option" where
  "ReadAll free l b =
    (case LimitedReader_Read l (Suc (free (length b))) of
       ((data, Some err), l') \<Rightarrow> (b @ data, if err = EOF then None else Some err)
     | ((data, None), l') \<Rightarrow> ReadAll free l' (b @ data))"
  by pat_completeness auto
termination
proof (relation "measure (\<lambda>(free, l, b). script_size (R l))", goal_cases)
  case 1
  show ?case by simp
next
  case (2 free l b x1 l' data x2)
  then show ?case
    by (cases "R l")
       (auto simp: LimitedReader_Read_def Let_def split: if_splits prod.splits)
qed

declare ReadAll.simps [simp del]

text \<open>\<^verbatim>\<open>int64\<close> arithmetic wraps around.\<close>

definition int64 :: "int \<Rightarrow> int" where
  "int64 x = signed_take_bit 63 x"

text \<open>
  \<^verbatim>\<open>func limitedRead(r io.Reader, limit int64) ([]byte, error)\<close>. The slice expression
  \<^verbatim>\<open>p[0:limit]\<close> panics for a negative \<open>limit\<close> (it is within the capacity of \<open>p\<close> otherwise,
  \<open>p\<close> having \<open>limit + 1\<close> bytes there).
\<close>

definition limitedRead ::
  "(nat \<Rightarrow> nat) \<Rightarrow> reader \<Rightarrow> int \<Rightarrow> panic + (byte list \<times> error option)" where
  "limitedRead free r limit =
    (case ReadAll free \<lparr>R = r, N = int64 (limit + 1)\<rparr> [] of
       (p, err) \<Rightarrow>
         if err \<noteq> None then Inr (p, err)
         else if int (length p) = int64 (limit + 1) then
           (if 0 \<le> limit then Inr (take (nat limit) p, Some ErrUnexpectedEOF)
            else Inl SliceBoundsOutOfRange)
         else Inr (p, err))"

text \<open>
  What a reader holds: the bytes it delivers up to its first error (or to the end of
  its script), and the error that ends them, \<open>None\<close> for a clean end (\<^verbatim>\<open>io.EOF\<close> or the
  end of the script).
\<close>

fun stream_data :: "reader \<Rightarrow> byte list" where
  "stream_data [] = []"
| "stream_data ((data, None) # rest) = data @ stream_data rest"
| "stream_data ((data, Some err) # rest) = data"

fun stream_err :: "reader \<Rightarrow> error option" where
  "stream_err [] = None"
| "stream_err ((data, None) # rest) = stream_err rest"
| "stream_err ((data, Some err) # rest) = (if err = EOF then None else Some err)"

text \<open>
  What \<^verbatim>\<open>ReadAll\<close> gets out of a reader limited to \<open>n\<close> bytes, by recursion on the script:
  it stops at the first error it is handed, and is handed none once \<open>n\<close> bytes are read.
\<close>

fun limited_stream :: "nat \<Rightarrow> reader \<Rightarrow> byte list \<times> error option" where
  "limited_stream n [] = ([], None)"
| "limited_stream n ((data, err) # rest) =
    (if n = 0 then ([], None)
     else if length data \<le> n then
       (case err of
          Some e \<Rightarrow> (data, if e = EOF then None else Some e)
        | None \<Rightarrow> (data @ fst (limited_stream (n - length data) rest),
                   snd (limited_stream (n - length data) rest)))
     else (take n data, None))"

definition demo_free :: "nat \<Rightarrow> nat" where
  "demo_free n = 511"

definition demo_reset_reader :: reader where
  "demo_reset_reader = [([1, 2], None), ([3], Some (Err ''connection reset''))]"

subsection \<open>Polling for an offer\<close>

definition pollInterval :: Duration where
  "pollInterval = 5 * 1000000000"

definition readLimit :: int where
  "readLimit = 100000"

definition StatusOK :: nat where
  "StatusOK = 200"

text \<open>
  \<^verbatim>\<open>http.Response\<close>, of which the code reads the status code and the body; one call of
  \<^verbatim>\<open>b.transport.RoundTrip(req)\<close> is its result and the time it takes.
\<close>

record Response =
  StatusCode :: nat
  Body :: reader

record RoundTrip =
  rt_duration :: Duration
  rt_result :: "error + Response"

text \<open>
  The codec of package \<^verbatim>\<open>common/messages\<close> and \<^verbatim>\<open>util.DeserializeSessionDescription\<close>
  (not among the sources), as parameters; \<open>'offer\<close> is \<^verbatim>\<open>*webrtc.SessionDescription\<close>.
\<close>

record 'offer broker_ops =
  EncodePollRequest :: "string \<Rightarrow> string \<Rightarrow> string \<Rightarrow> error + byte list"
  DecodePollResponse :: "byte list \<Rightarrow> error + string"
  DeserializeSessionDescription :: "string \<Rightarrow> error + 'offer"

text \<open>
  What one pass through the body of the \<^verbatim>\<open>for\<close> loop of \<^verbatim>\<open>pollOffer\<close> ends in, after the
  request has been encoded: the next iteration, or a \<^verbatim>\<open>return\<close> (of nil or of an offer).
\<close>

datatype 'offer iteration = Continue | Return "'offer option" | Panics panic

definition handleResponse ::
  "'offer broker_ops \<Rightarrow> (nat \<Rightarrow> nat) \<Rightarrow> error + Response \<Rightarrow> 'offer iteration" where
  "handleResponse ops free result =
    (case result of
       Inl err \<Rightarrow> Continue
     | Inr resp \<Rightarrow>
        if StatusCode resp \<noteq> StatusOK then Continue
        else
          (case limitedRead free (Body resp) readLimit of
             Inl p \<Rightarrow> Panics p
           | Inr (body, Some err) \<Rightarrow> Continue
           | Inr (body, None) \<Rightarrow>
              (case DecodePollResponse ops body of
                 Inl err \<Rightarrow> Return None
               | Inr offer \<Rightarrow>
                  if offer \<noteq> [] then
                    (case DeserializeSessionDescription ops offer of
                       Inl err \<Rightarrow> Return None
                     | Inr offer' \<Rightarrow> Return (Some offer'))
                  else Continue)))"

text \<open>
  The clock: \<^verbatim>\<open>time.Now()\<close> reads it, \<^verbatim>\<open>time.Sleep(d)\<close> advances it by \<open>d\<close> when \<open>d\<close> is
  positive and returns at once otherwise, a round trip advances it by its duration;
  the other statements take no time.
\<close>

definition time_Sleep :: "Duration \<Rightarrow> Time \<Rightarrow> Time" where
  "time_Sleep d clock = (if d \<le> 0 then clock else clock + d)"

text \<open>
  The record of one iteration: the value of \<^verbatim>\<open>timeOfNextPoll\<close> on entry (the time the
  iteration was scheduled for), the value of \<^verbatim>\<open>now\<close>, how long it slept, the time at
  which it went on to its request, and the value of \<^verbatim>\<open>timeOfNextPoll\<close> it computed.
\<close>

record Poll =
  scheduled :: Time
  now_read :: Time
  slept :: Duration
  started :: Time
  next_scheduled :: Time

text \<open>
  The loop of \<^verbatim>\<open>func (b *Broker) pollOffer(sid string) *webrtc.SessionDescription\<close>, run
  against the list of the round trips the transport will make. \<open>None\<close> as result: the
  loop is still polling when the list is used up.
\<close>

fun pollLoop ::
  "'offer broker_ops \<Rightarrow> (nat \<Rightarrow> nat) \<Rightarrow> string \<Rightarrow> string \<Rightarrow> Time \<Rightarrow> Time \<Rightarrow> RoundTrip list
    \<Rightarrow> 'offer iteration option \<times> Poll list" where
  "pollLoop ops free sid natType timeOfNextPoll clock [] = (None, [])"
| "pollLoop ops free sid natType timeOfNextPoll clock (rt # rts) =
    (let now = clock;
         clock1 = time_Sleep (timeOfNextPoll - now) clock;
         timeOfNextPoll1 = timeOfNextPoll + pollInterval;
         timeOfNextPoll2 = (if timeOfNextPoll1 < now then now else timeOfNextPoll1);
         poll = \<lparr>scheduled = timeOfNextPoll, now_read = now, slept = clock1 - clock,
                 started = clock1, next_scheduled = timeOfNextPoll2\<rparr>
     in (case EncodePollRequest ops sid ''standalone'' natType of
           Inl err \<Rightarrow> (Some (Return None), [poll])
         | Inr body \<Rightarrow>
            (case handleResponse ops free (rt_result rt) of
               Continue \<Rightarrow>
                 (let (res, polls) =
                        pollLoop ops free sid natType timeOfNextPoll2 (clock1 + rt_duration rt) rts
                  in (res, poll # polls))
             | Return offer \<Rightarrow> (Some (Return offer), [poll])
             | Panics p \<Rightarrow> (Some (Panics p), [poll]))))"

text \<open>
  \<^verbatim>\<open>pollOffer\<close>: \<^verbatim>\<open>timeOfNextPoll := time.Now()\<close>, then the loop. \<open>currentNATType\<close> is the
  global of that name.
\<close>

definition pollOffer ::
  "'offer broker_ops \<Rightarrow> (nat \<Rightarrow> nat) \<Rightarrow> string \<Rightarrow> string \<Rightarrow> Time \<Rightarrow> RoundTrip list
    \<Rightarrow> 'offer iteration option \<times> Poll list" where
  "pollOffer ops free sid currentNATType clock rts =
    pollLoop ops free sid currentNATType clock clock rts"

text \<open>A broker on which the model runs: the body of a response is the offer.\<close>

definition demo_broker_ops :: "string broker_ops" where
  "demo_broker_ops =
    \<lparr>EncodePollRequest = (\<lambda>sid proxyType natType. Inr []),
     DecodePollResponse = (\<lambda>body. Inr (map (\<lambda>b. char_of (unat b)) body)),
     DeserializeSessionDescription = (\<lambda>offer. Inr offer)\<rparr>"

definition demo_roundtrips :: "RoundTrip list" where
  "demo_roundtrips =
    [\<lparr>rt_duration = 7000000000, rt_result = Inl (Err ''timeout'')\<rparr>,
     \<lparr>rt_duration = 1000000000, rt_result = Inr \<lparr>StatusCode = 503, Body = []\<rparr>\<rparr>,
     \<lparr>rt_duration = 1000000000, rt_result = Inr \<lparr>StatusCode = 200, Body = [([118], None)]\<rparr>\<rparr>]"

section \<open>The supervised session (proxy/snowflake.go)\<close>

text \<open>
  What a session does to the token pool and to its connections, in order:
  \<^verbatim>\<open>getToken()\<close>, \<^verbatim>\<open>retToken()\<close>, \<^verbatim>\<open>pc.Close()\<close>, \<^verbatim>\<open>conn.Close()\<close>, \<^verbatim>\<open>wsConn.Close()\<close>, the
  return of \<^verbatim>\<open>CopyLoop\<close>, and the end of the process (\<^verbatim>\<open>log.Fatalf\<close> or a panic, after
  which no deferred call runs).
\<close>

datatype session_event =
    GetToken
  | RetToken
  | PcClose
  | ConnClose
  | WsClose
  | CopyLoopDone
  | ProcessExit

text \<open>
  What the collaborators do in one session:
  \<^item> \<open>rand_ok\<close>: \<^verbatim>\<open>rand.Read\<close> in \<^verbatim>\<open>genSessionID\<close> succeeds;
  \<^item> \<open>offer\<close>: what \<^verbatim>\<open>broker.pollOffer(sid)\<close> returns, \<open>None\<close> being nil;
  \<^item> \<open>NewPeerConnection_err\<close>, \<open>SetRemoteDescription_err\<close>, \<open>CreateAnswer_err\<close>,
    \<open>SetLocalDescription_err\<close>: the errors of the four calls on the peer connection in
    \<^verbatim>\<open>makePeerConnectionFromOffer\<close>; \<open>pcClose_err\<close>: the error of \<^verbatim>\<open>pc.Close()\<close>;
  \<^item> \<open>sendAnswer_err\<close>: the error \<^verbatim>\<open>broker.sendAnswer\<close> returns when it gets a peer
    connection;
  \<^item> \<open>dataChannel_opens\<close>: the remote peer opens a data channel on the peer connection,
    so that the \<^verbatim>\<open>OnDataChannel\<close> callback runs: it closes \<^verbatim>\<open>dataChan\<close> and starts
    \<^verbatim>\<open>datachannelHandler\<close>;
  \<^item> \<open>timer_first\<close>: in the \<^verbatim>\<open>select\<close> of \<^verbatim>\<open>runSession\<close>, \<^verbatim>\<open>time.After(dataChannelTimeout)\<close>
    delivers before \<^verbatim>\<open>dataChan\<close> is closed;
  \<^item> \<open>relayURL_parses\<close>: \<^verbatim>\<open>url.Parse(relayURL)\<close> succeeds (\<^verbatim>\<open>main\<close> has checked the same
    string before its loop);
  \<^item> \<open>dial_err\<close>: the error of \<^verbatim>\<open>websocket.DefaultDialer.Dial\<close>;
  \<^item> \<open>short_write\<close>: the \<^verbatim>\<open>OnMessage\<close> callback panics with \<^verbatim>\<open>short write\<close> during the copy.
  Sessions whose poll loop or copy loop never ends have not ended and have no event
  list.
\<close>

record 'offer Scenario =
  rand_ok :: bool
  offer :: "'offer option"
  NewPeerConnection_err :: "error option"
  SetRemoteDescription_err :: "error option"
  CreateAnswer_err :: "error option"
  SetLocalDescription_err :: "error option"
  pcClose_err :: "error option"
  sendAnswer_err :: "error option"
  dataChannel_opens :: bool
  timer_first :: bool
  relayURL_parses :: bool
  dial_err :: "error option"
  short_write :: bool

text \<open>
  \<^verbatim>\<open>func makePeerConnectionFromOffer(sdp, config, dataChan) (*webrtc.PeerConnection, error)\<close>.
  The result is the pair it returns, the peer connection as \<open>True\<close> for a connection
  and \<open>False\<close> for nil, and the events. The errors made with \<^verbatim>\<open>fmt.Errorf\<close> are errors
  with the text of their format. In the last branch the source assigns the result of
  \<^verbatim>\<open>pc.Close()\<close> to \<^verbatim>\<open>err\<close> itself (\<^verbatim>\<open>if err = pc.Close(); err != nil\<close>, where the two
  branches before declare \<^verbatim>\<open>inerr\<close>), and then returns \<^verbatim>\<open>nil, err\<close>.
\<close>

definition makePeerConnectionFromOffer ::
  "'offer Scenario \<Rightarrow> (bool \<times> error option) \<times> session_event list" where
  "makePeerConnectionFromOffer sc =
    (case NewPeerConnection_err sc of
       Some err \<Rightarrow> ((False, Some (Err ''accept: NewPeerConnection'')), [])
     | None \<Rightarrow>
        (case SetRemoteDescription_err sc of
           Some err \<Rightarrow> ((False, Some (Err ''accept: SetRemoteDescription'')), [PcClose])
         | None \<Rightarrow>
            (case CreateAnswer_err sc of
               Some err \<Rightarrow> ((False, Some err), [PcClose])
             | None \<Rightarrow>
                (case SetLocalDescription_err sc of
                   Some err \<Rightarrow> ((False, pcClose_err sc), [PcClose])
                 | None \<Rightarrow> ((True, None), [])))))"

text \<open>
  \<^verbatim>\<open>func (b *Broker) sendAnswer(sid string, pc *webrtc.PeerConnection) error\<close>, as far as
  the session goes: its second statement is \<^verbatim>\<open>ld := pc.LocalDescription()\<close>, which
  dereferences \<open>pc\<close>; on a nil \<open>pc\<close> this panics. Otherwise it returns its error.
\<close>

definition sendAnswer :: "'offer Scenario \<Rightarrow> bool \<Rightarrow> panic + error option" where
  "sendAnswer sc pc' =
    (if \<not> pc' then Inl NilPointerDereference else Inr (sendAnswer_err sc))"

text \<open>
  The \<^verbatim>\<open>select\<close> of \<^verbatim>\<open>runSession\<close> receives from \<^verbatim>\<open>dataChan\<close> when the callback has closed
  it before the timer delivers.
\<close>

definition dataChan_received :: "'offer Scenario \<Rightarrow> bool" where
  "dataChan_received sc = (dataChannel_opens sc \<and> \<not> timer_first sc)"

text \<open>\<^verbatim>\<open>func runSession(sid string)\<close>. A panic ends the process.\<close>

definition runSession :: "'offer Scenario \<Rightarrow> session_event list" where
  "runSession sc =
    (case offer sc of
       None \<Rightarrow> [RetToken]
     | Some sdp \<Rightarrow>
        (case makePeerConnectionFromOffer sc of
           ((pc', Some err), evs) \<Rightarrow> evs @ [RetToken]
         | ((pc', None), evs) \<Rightarrow>
            (case sendAnswer sc pc' of
               Inl p \<Rightarrow> evs @ [ProcessExit]
             | Inr (Some err) \<Rightarrow> evs @ [PcClose, RetToken]
             | Inr None \<Rightarrow>
                if dataChan_received sc then evs
                else evs @ [PcClose, RetToken])))"

text \<open>
  \<^verbatim>\<open>func datachannelHandler(conn *webRTCConn, remoteAddr net.Addr)\<close>. The deferred calls
  run last in, first out: \<^verbatim>\<open>wsConn.Close()\<close>, \<^verbatim>\<open>retToken()\<close>, \<^verbatim>\<open>conn.Close()\<close>.
\<close>

definition datachannelHandler :: "'offer Scenario \<Rightarrow> session_event list" where
  "datachannelHandler sc =
    (if \<not> relayURL_parses sc then [ProcessExit]
     else
       (case dial_err sc of
          Some err \<Rightarrow> [RetToken, ConnClose]
        | None \<Rightarrow>
           if short_write sc then [ProcessExit]
           else [CopyLoopDone, WsClose, RetToken, ConnClose]))"

text \<open>
  The \<^verbatim>\<open>OnDataChannel\<close> callback, installed by \<^verbatim>\<open>makePeerConnectionFromOffer\<close>, runs
  \<^verbatim>\<open>go datachannelHandler(conn, conn.RemoteAddr())\<close> whenever the remote peer opens a data
  channel, whatever \<^verbatim>\<open>runSession\<close> is doing then. The peer can open one only on a
  connection that was built and whose answer was handed to \<^verbatim>\<open>sendAnswer\<close>.
\<close>

definition handlerStarted :: "'offer Scenario \<Rightarrow> bool" where
  "handlerStarted sc =
    (offer sc \<noteq> None \<and> fst (makePeerConnectionFromOffer sc) = (True, None)
     \<and> dataChannel_opens sc)"

text \<open>
  One turn of the loop of \<^verbatim>\<open>main\<close>: \<^verbatim>\<open>getToken(); sessionID := genSessionID();\<close>
  \<^verbatim>\<open>runSession(sessionID)\<close>, and the handler the callback has started. The handler runs
  on a goroutine of its own; its events are listed after those of \<^verbatim>\<open>runSession\<close>, and
  the number of releases does not depend on how the two are interleaved.
\<close>

definition session :: "'offer Scenario \<Rightarrow> session_event list" where
  "session sc =
    GetToken #
      (if \<not> rand_ok sc then [ProcessExit]
       else runSession sc @ (if handlerStarted sc then datachannelHandler sc else []))"

text \<open>
  Concrete sessions: one in which every call succeeds and the data channel opens in
  time; one in which \<^verbatim>\<open>pc.SetLocalDescription\<close> fails and the \<^verbatim>\<open>pc.Close()\<close> after it
  succeeds; one in which \<^verbatim>\<open>sendAnswer\<close> reports an error although the answer has reached
  the client, who opens the data channel; one in which the data channel opens after the
  timer has delivered.
\<close>

definition demo_scenario :: "string Scenario" where
  "demo_scenario =
    \<lparr>rand_ok = True, offer = Some ''v=0'', NewPeerConnection_err = None,
     SetRemoteDescription_err = None, CreateAnswer_err = None,
     SetLocalDescription_err = None, pcClose_err = None,
     sendAnswer_err = None, dataChannel_opens = True, timer_first = False,
     relayURL_parses = True, dial_err = None, short_write = False\<rparr>"

definition demo_SetLocalDescription_fails :: "string Scenario" where
  "demo_SetLocalDescription_fails =
    demo_scenario\<lparr>SetLocalDescription_err := Some (Err ''set local description''),
                  dataChannel_opens := False\<rparr>"

definition demo_answer_error_channel_opens :: "string Scenario" where
  "demo_answer_error_channel_opens =
    demo_scenario\<lparr>sendAnswer_err := Some (Err ''error reading broker response'')\<rparr>"

definition demo_channel_opens_late :: "string Scenario" where
  "demo_channel_opens_late = demo_scenario\<lparr>timer_first := True\<rparr>"

section \<open>Properties of the sink cluster\<close>


lemma resetNames_append: "resetNames (xs @ ys) = resetNames xs @ resetNames ys"
  by (induction xs rule: resetNames.induct) simp_all





lemma flushSinks_all_ok:
  assumes "\<forall>(n, snk) \<in> set ss. \<not> sinkFails ops lw ct snk"
  shows "fst (flushSinks ops lw ct ss) = True
    \<and> map (\<lambda>(n, snk). current snk) (fst (snd (flushSinks ops lw ct ss)))
        = map (\<lambda>(n, snk). ipset_Reset ops (current snk)) ss
    \<and> resetNames (snd (snd (flushSinks ops lw ct ss))) = map fst ss
    \<and> dumpedNames (snd (snd (flushSinks ops lw ct ss))) = map fst ss
    \<and> copiedNames (snd (snd (flushSinks ops lw ct ss))) = map fst ss
    \<and> Logged \<notin> set (snd (snd (flushSinks ops lw ct ss)))"
  using assms
  by (induction ss) (auto simp: sinkFails_def split: sum.splits option.splits prod.splits)


lemma flushSinks_sync_irrelevant:
  "flushSinks (ops\<lparr>writer_Sync := \<lambda>w. (e w, snd (writer_Sync ops w))\<rparr>) lw ct ss
    = flushSinks ops lw ct ss"
  by (induction ss) (auto simp: io_Copy_def split: sum.splits option.splits prod.splits)







text \<open>
  Claim C10 (Sync failures are ignored). The result of \<^verbatim>\<open>WriteIPSetToDisk\<close> does not depend
  on the error that \<^verbatim>\<open>Sync\<close> returns: replacing it by any other error value \<open>syncErr\<close> gives
  the same state and the same events. In particular, when \<^verbatim>\<open>Dump\<close>, the marshalling and
  the write succeed for every sink and every \<^verbatim>\<open>Sync\<close> returns an error, every sink is
  still reset, \<open>lastWriteTime\<close> is still advanced, and nothing is logged (no early
  return is taken).
\<close>

theorem WriteIPSetToDisk_ignores_Sync_error:
  "WriteIPSetToDisk (ops\<lparr>writer_Sync := \<lambda>w. (syncErr w, snd (writer_Sync ops w))\<rparr>) currentTime c
      = WriteIPSetToDisk ops currentTime c
   \<and> ((\<forall>(n, snk) \<in> set (sinks c). \<not> sinkFails ops (lastWriteTime c) currentTime snk)
        \<and> (\<forall>w. fst (writer_Sync ops w) \<noteq> None) \<longrightarrow>
          lastWriteTime (fst (WriteIPSetToDisk ops currentTime c)) = currentTime
        \<and> map (\<lambda>(n, snk). current snk) (sinks (fst (WriteIPSetToDisk ops currentTime c)))
            = map (\<lambda>(n, snk). ipset_Reset ops (current snk)) (sinks c)
        \<and> resetNames (snd (WriteIPSetToDisk ops currentTime c)) = map fst (sinks c)
        \<and> Logged \<notin> set (snd (WriteIPSetToDisk ops currentTime c)))"
proof (intro conjI impI)
  show "WriteIPSetToDisk (ops\<lparr>writer_Sync := \<lambda>w. (syncErr w, snd (writer_Sync ops w))\<rparr>) currentTime c
      = WriteIPSetToDisk ops currentTime c"
    by (simp add: WriteIPSetToDisk_def flushSinks_sync_irrelevant)
next
  assume h: "(\<forall>(n, snk) \<in> set (sinks c). \<not> sinkFails ops (lastWriteTime c) currentTime snk)
        \<and> (\<forall>w. fst (writer_Sync ops w) \<noteq> None)"
  then have ok: "\<forall>(n, snk) \<in> set (sinks c). \<not> sinkFails ops (lastWriteTime c) currentTime snk"
    by simp
  obtain ss' fevs where f: "flushSinks ops (lastWriteTime c) currentTime (sinks c) = (True, ss', fevs)"
    using flushSinks_all_ok [OF ok]
    by (cases "flushSinks ops (lastWriteTime c) currentTime (sinks c)") auto
  note facts = flushSinks_all_ok [OF ok, unfolded f, simplified]
  show "lastWriteTime (fst (WriteIPSetToDisk ops currentTime c)) = currentTime"
    by (simp add: WriteIPSetToDisk_def f)
  show "map (\<lambda>(n, snk). current snk) (sinks (fst (WriteIPSetToDisk ops currentTime c)))
            = map (\<lambda>(n, snk). ipset_Reset ops (current snk)) (sinks c)"
    using facts by (simp add: WriteIPSetToDisk_def f)
  show "resetNames (snd (WriteIPSetToDisk ops currentTime c)) = map fst (sinks c)"
    using facts by (simp add: WriteIPSetToDisk_def f resetNames_append)
  show "Logged \<notin> set (snd (WriteIPSetToDisk ops currentTime c))"
    using facts by (simp add: WriteIPSetToDisk_def f)
qed

text \<open>
  In \<open>demo_ops\<close> every \<^verbatim>\<open>Sync\<close> fails, and \<open>demo_cluster\<close> is flushed all the same.
\<close>

theorem WriteIPSetToDisk_ignores_Sync_error_witness:
  "(\<forall>w. fst (writer_Sync demo_ops w) \<noteq> None)
   \<and> lastWriteTime (fst (WriteIPSetToDisk demo_ops 100 demo_cluster)) = 100
   \<and> map (\<lambda>(n, snk). current snk) (sinks (fst (WriteIPSetToDisk demo_ops 100 demo_cluster)))
       = [[], []]
   \<and> resetNames (snd (WriteIPSetToDisk demo_ops 100 demo_cluster)) = [''a'', ''b'']
   \<and> Logged \<notin> set (snd (WriteIPSetToDisk demo_ops 100 demo_cluster))"
proof -
  have h: "(\<forall>(n, snk) \<in> set (sinks demo_cluster).
              \<not> sinkFails demo_ops (lastWriteTime demo_cluster) 100 snk)
          \<and> (\<forall>w. fst (writer_Sync demo_ops w) \<noteq> None)"
    by (simp add: demo_cluster_def demo_ops_def sinkFails_def io_Copy_def)
  note a = WriteIPSetToDisk_ignores_Sync_error
    [where ops = demo_ops and currentTime = 100 and c = demo_cluster,
     THEN conjunct2, THEN mp, OF h]
  have s: "map fst (sinks demo_cluster) = [''a'', ''b'']"
    "map (\<lambda>(n, snk). ipset_Reset demo_ops (current snk)) (sinks demo_cluster) = [[], []]"
    by (simp_all add: demo_cluster_def demo_ops_def)
  show ?thesis
    using a h by (simp add: s)
qed

section \<open>Properties of the address extraction and of the peer session\<close>

lemma find_append_case:
  "List.find P (xs @ ys) = (case List.find P xs of Some x \<Rightarrow> Some x | None \<Rightarrow> List.find P ys)"
  by (induction xs) simp_all

lemma map_filter_append_list:
  "List.map_filter f (xs @ ys) = List.map_filter f xs @ List.map_filter f ys"
  by (induction xs) (simp_all split: option.splits)

lemma scanAttributes_find:
  "scanAttributes env as =
    List.find (isRemoteAddress env)
      (List.map_filter
        (\<lambda>a. case ice_UnmarshalCandidate env (Value a) of
                Inl err \<Rightarrow> None
              | Inr address \<Rightarrow> net_ParseIP env address)
        (filter IsICECandidate as))"
  by (induction as) (simp_all split: sum.splits option.splits)

lemma scanMediaDescriptions_find:
  "scanMediaDescriptions env ms =
    List.find (isRemoteAddress env)
      (List.map_filter
        (\<lambda>a. case ice_UnmarshalCandidate env (Value a) of
                Inl err \<Rightarrow> None
              | Inr address \<Rightarrow> net_ParseIP env address)
        (filter IsICECandidate (concat (map Attributes ms))))"
  by (induction ms)
     (simp_all add: map_filter_append_list find_append_case scanAttributes_find
        split: option.splits)

lemma scanPatterns_find:
  "scanPatterns env str ps =
    List.find (isRemoteAddress env)
      (List.map_filter
        (\<lambda>p. case FindStringSubmatch env p str of
                None \<Rightarrow> None
              | Some (m0, m1, m2) \<Rightarrow> net_ParseIP env m1)
        ps)"
  by (induction ps) (simp_all split: option.splits prod.splits)

text \<open>
  Claim C4, as amended. For a text that the SDP parser accepts, with description \<open>desc\<close>,
  \<^verbatim>\<open>remoteIPFromSDP\<close> returns the first ICE candidate address, in the order of the media
  descriptions and of their attributes, that is neither local nor unspecified nor
  loopback; when there is none, the first address among the match of the IPv4
  expression and the match of the IPv6 expression that passes the same test; else none.
  For a text that the parser rejects it returns none, whatever the text holds.
\<close>

theorem remoteIPFromSDP_parsed_text:
  "(sdp_Unmarshal env str = Inr desc \<longrightarrow> remoteIPFromSDP env str = remoteIP_spec env desc str)
   \<and> (sdp_Unmarshal env str = Inl err \<longrightarrow> remoteIPFromSDP env str = None)"
  by (simp add: remoteIPFromSDP_def remoteIP_spec_def candidateAddresses_def
        connectionAddresses_def scanMediaDescriptions_find scanPatterns_find
        split: option.splits)

text \<open>
  In \<open>demo_desc\<close> the first candidate is local and the next one that parses is remote:
  the remote one is returned.
\<close>

theorem remoteIPFromSDP_parsed_text_witness:
  "sdp_Unmarshal demo_sdp_env ''v=0'' = Inr demo_desc
   \<and> candidateAddresses demo_sdp_env demo_desc = [''192.168.1.5'', ''8.8.4.4'', ''9.9.9.9'']
   \<and> remoteIPFromSDP demo_sdp_env ''v=0'' = Some ''8.8.4.4''
   \<and> sdp_Unmarshal demo_sdp_env ''x'' = Inl (Err ''sdp: invalid syntax'')
   \<and> remoteIPFromSDP demo_sdp_env ''x'' = None"
proof -
  have p: "sdp_Unmarshal demo_sdp_env ''v=0'' = Inr demo_desc"
    and q: "sdp_Unmarshal demo_sdp_env ''x'' = Inl (Err ''sdp: invalid syntax'')"
    by (simp_all add: demo_sdp_env_def)
  have c: "candidateAddresses demo_sdp_env demo_desc = [''192.168.1.5'', ''8.8.4.4'', ''9.9.9.9'']"
    by (simp add: candidateAddresses_def demo_sdp_env_def demo_desc_def IsICECandidate_def)
  have r: "isRemoteAddress demo_sdp_env ''8.8.4.4''" "\<not> isRemoteAddress demo_sdp_env ''192.168.1.5''"
    by (simp_all add: isRemoteAddress_def demo_sdp_env_def)
  note a = remoteIPFromSDP_parsed_text [THEN conjunct1, THEN mp, OF p]
    remoteIPFromSDP_parsed_text [THEN conjunct2, THEN mp, OF q]
  show ?thesis
    using a by (simp add: p q c r remoteIP_spec_def)
qed

text \<open>
  Claim C4 as stated, for every text, fails on a text that is no session description
  (it has no \<^verbatim>\<open>v=\<close> line) and holds a connection-data line with a remote address: the
  claim's wording gives that address, the function returns none at its first
  \<^verbatim>\<open>return nil\<close>.
\<close>

theorem remoteIPFromSDP_unparsed_text_counterexample:
  "remoteIP_every_text demo_sdp_env (''c=IN IP4 8.8.8.8'' @ [CHR 0x0A]) = Some ''8.8.8.8''
   \<and> remoteIPFromSDP demo_sdp_env (''c=IN IP4 8.8.8.8'' @ [CHR 0x0A]) = None"
  by (simp add: remoteIP_every_text_def remoteIPFromSDP_def connectionAddresses_def
        remoteIPPatterns_def demo_sdp_env_def isRemoteAddress_def)


lemma Close_times_done:
  "once c \<Longrightarrow> Close_times n prErr pcErr c = (replicate n None, c)"
  by (induction n) (simp_all add: Close_def)

lemma Close_main_times_done:
  "once_main c \<Longrightarrow> Close_main_times n pcErr c = (replicate n None, c)"
  by (induction n) (simp_all add: Close_main_def)

text \<open>
  Claim C6 (close idempotence). On a session whose \<^verbatim>\<open>Once\<close> has not run, \<open>calls \<ge> 1\<close> calls
  of \<^verbatim>\<open>Close\<close> leave the session as the first call alone leaves it: the watchdog is
  cancelled once, the pipe reader and the peer connection are closed once, the first
  call returns their joined errors and every later call returns nil and changes
  nothing. The same holds for \<^verbatim>\<open>Close\<close> of proxy/snowflake.go, whose body closes the peer
  connection only.
\<close>

theorem Close_runs_body_once:
  assumes "1 \<le> calls" and "\<not> once c" and "\<not> once_main cm"
  shows "Close_times calls prErr pcErr c
           = (errors_Join [prErr, pcErr] # replicate (calls - 1) None, snd (Close prErr pcErr c))
       \<and> cancelCalls (snd (Close_times calls prErr pcErr c)) = cancelCalls c + 1
       \<and> pr_closeCalls (pr (snd (Close_times calls prErr pcErr c))) = pr_closeCalls (pr c) + 1
       \<and> pc_closeCalls (pc (snd (Close_times calls prErr pcErr c))) = pc_closeCalls (pc c) + 1
       \<and> Close prErr pcErr (snd (Close_times calls prErr pcErr c))
           = (None, snd (Close_times calls prErr pcErr c))
       \<and> Close_main_times calls pcErr cm
           = (pcErr # replicate (calls - 1) None, snd (Close_main pcErr cm))
       \<and> pc_closeCalls (pc_main (snd (Close_main_times calls pcErr cm)))
           = pc_closeCalls (pc_main cm) + 1
       \<and> Close_main pcErr (snd (Close_main_times calls pcErr cm))
           = (None, snd (Close_main_times calls pcErr cm))"
proof -
  obtain n where calls: "calls = Suc n"
    using assms(1) by (cases calls) simp_all
  have d: "once (snd (Close prErr pcErr c))" "once_main (snd (Close_main pcErr cm))"
    by (simp_all add: Close_def Close_main_def)
  have a: "Close_times calls prErr pcErr c
           = (errors_Join [prErr, pcErr] # replicate (calls - 1) None, snd (Close prErr pcErr c))"
    using assms(2) Close_times_done [OF d(1), of n prErr pcErr]
    by (simp add: calls Close_def)
  have b: "Close_main_times calls pcErr cm
           = (pcErr # replicate (calls - 1) None, snd (Close_main pcErr cm))"
    using assms(3) Close_main_times_done [OF d(2), of n pcErr]
    by (simp add: calls Close_main_def)
  show ?thesis
    unfolding a b using assms(2,3) by (simp add: Close_def Close_main_def)
qed

text \<open>Three calls of \<^verbatim>\<open>Close\<close> on the concrete sessions.\<close>

theorem Close_runs_body_once_witness:
  "Close_times 3 None (Some (Err ''closed'')) demo_conn
     = ([Some (Joined [Err ''closed'']), None, None],
        demo_conn\<lparr>once := True, cancelCalls := 1,
          pr := \<lparr>pr_closeCalls = 1\<rparr>,
          pc := \<lparr>remoteDescription = Some \<lparr>SDP = ''v=0''\<rparr>, pc_closeCalls = 1\<rparr>\<rparr>)
   \<and> Close_main_times 3 (Some (Err ''closed'')) demo_conn_main
     = ([Some (Err ''closed''), None, None],
        demo_conn_main\<lparr>once_main := True,
          pc_main := \<lparr>remoteDescription = Some \<lparr>SDP = ''v=0''\<rparr>, pc_closeCalls = 1\<rparr>\<rparr>)"
proof -
  have h: "(1::nat) \<le> 3" "\<not> once demo_conn" "\<not> once_main demo_conn_main"
    by (simp_all add: demo_conn_def demo_conn_main_def)
  note a = Close_runs_body_once
    [OF h, where prErr = None and pcErr = "Some (Err ''closed'')"]
  show ?thesis
    using a by (simp add: Close_def Close_main_def errors_Join_def demo_conn_def
        demo_conn_main_def numeral_3_eq_3)
qed

text \<open>
  Claim C5 as stated fails while the data channel is live: in proxy/lib/webrtcconn.go a
  write that finds \<open>maxBufferedAmount\<close> bytes or more buffered waits on \<open>sendMoreCh\<close>, and
  with no value buffered there and no signal from the low-water callback it does not
  return at all.
\<close>

theorem Write_blocks_counterexample:
  "fst (Write demo_dc_ops False (demo_conn\<lparr>dc := Some 600000\<rparr>) [1, 2, 3]) = None"
  by (simp add: Write_def demo_conn_def demo_dc_ops_def maxBufferedAmount_def)

text \<open>
  Claim C5, as amended. For every byte slice \<open>b\<close>:
  \<^item> with the data channel reference nil, and so after \<^verbatim>\<open>OnClose\<close> has cleared it,
    \<^verbatim>\<open>Write\<close> returns \<open>(len b, nil)\<close> and the bytes go nowhere;
  \<^item> with a live data channel it returns \<open>(len b, nil)\<close> when the buffered amount after
    the send is below \<open>maxBufferedAmount\<close>, and otherwise once a value is buffered in
    \<open>sendMoreCh\<close> or the low-water callback signals; until then it is blocked;
  \<^item> it never returns a short count or an error: the call either waits for good, exactly
    in the case just named, or returns \<open>(len b, nil)\<close>;
  \<^item> \<^verbatim>\<open>Write\<close> of proxy/snowflake.go, which never waits, always returns \<open>(len b, nil)\<close>, and
    leaves a session without data channel as it is.
\<close>

theorem Write_reports_full_length:
  "(dc c = None \<longrightarrow> fst (Write ops signalled c b) = Some (length b, None))
   \<and> (dc (OnClose c) = None
        \<and> fst (Write ops signalled (OnClose c) b) = Some (length b, None)
        \<and> dc (snd (Write ops signalled (OnClose c) b)) = None)
   \<and> (dc c \<noteq> None \<and> (0 < sendMoreCh c \<or> signalled) \<longrightarrow>
        fst (Write ops signalled c b) = Some (length b, None))
   \<and> (\<forall>d. dc c = Some d \<and> dc_BufferedAmount ops (snd (dc_Send ops d b)) < maxBufferedAmount \<longrightarrow>
        fst (Write ops signalled c b) = Some (length b, None))
   \<and> (\<forall>r. fst (Write ops signalled c b) = Some r \<longrightarrow> r = (length b, None))
   \<and> fst (Write_main ops cm b) = (length b, None)
   \<and> fst (Write_main ops (OnClose_main cm) b) = (length b, None)
   \<and> snd (Write_main ops (OnClose_main cm) b) = OnClose_main cm
   \<and> fst (Write ops signalled c b)
       = (if Write_waits ops signalled c b then None else Some (length b, None))"
  by (auto simp: Write_def Write_main_def Write_waits_def OnClose_def OnClose_main_def Let_def
        split: option.splits prod.splits if_splits)

text \<open>
  On the concrete session: a write on the live channel, a write after \<^verbatim>\<open>OnClose\<close>, and a
  write on a channel that has 600000 bytes buffered, which returns once the
  low-water callback has signalled.
\<close>

theorem Write_reports_full_length_witness:
  "fst (Write demo_dc_ops False demo_conn [1, 2, 3]) = Some (3, None)
   \<and> dc (snd (Write demo_dc_ops False demo_conn [1, 2, 3])) = Some 3
   \<and> fst (Write demo_dc_ops False (OnClose demo_conn) [1, 2, 3]) = Some (3, None)
   \<and> fst (Write demo_dc_ops True (demo_conn\<lparr>dc := Some 600000\<rparr>) [1, 2, 3]) = Some (3, None)"
proof -
  have h1: "dc demo_conn = Some 0 \<and>
      dc_BufferedAmount demo_dc_ops (snd (dc_Send demo_dc_ops 0 [1, 2, 3])) < maxBufferedAmount"
    by (simp add: demo_conn_def demo_dc_ops_def maxBufferedAmount_def)
  have h2: "dc (demo_conn\<lparr>dc := Some 600000\<rparr>) \<noteq> None
      \<and> (0 < sendMoreCh (demo_conn\<lparr>dc := Some 600000\<rparr>) \<or> True)"
    by simp
  note a = Write_reports_full_length
    [where ops = demo_dc_ops and c = demo_conn and b = "[1, 2, 3]" and signalled = False,
     THEN conjunct2, THEN conjunct2, THEN conjunct2, THEN conjunct1, THEN spec, THEN mp, OF h1]
  note a' = Write_reports_full_length
    [where ops = demo_dc_ops and c = demo_conn and b = "[1, 2, 3]" and signalled = False,
     THEN conjunct2, THEN conjunct1]
  note b = Write_reports_full_length
    [where ops = demo_dc_ops and c = "demo_conn\<lparr>dc := Some 600000\<rparr>" and b = "[1, 2, 3]"
       and signalled = True,
     THEN conjunct2, THEN conjunct2, THEN conjunct1, THEN mp, OF h2]
  have s: "dc (snd (Write demo_dc_ops False demo_conn [1, 2, 3])) = Some 3"
    by (simp add: Write_def demo_conn_def demo_dc_ops_def maxBufferedAmount_def)
  show ?thesis
    using a a' b s by simp
qed

text \<open>
  Claim C7 as stated fails: on a session whose peer connection has no remote
  description, \<^verbatim>\<open>RemoteIP\<close> does not return none, it dereferences the nil description.
\<close>

theorem RemoteIP_nil_description_counterexample:
  "RemoteIP demo_sdp_env (demo_conn\<lparr>pc := \<lparr>remoteDescription = None, pc_closeCalls = 0\<rparr>\<rparr>)
     = Inl NilPointerDereference"
  by (simp add: RemoteIP_def)

text \<open>
  Claim C7, as amended. On a session whose peer connection has a remote description
  \<^verbatim>\<open>RemoteIP\<close> returns \<^verbatim>\<open>remoteIPFromSDP\<close> of its SDP text; on a session whose peer
  connection has none yet, the call panics with a nil pointer dereference.
\<close>

theorem RemoteIP_of_description:
  "(remoteDescription (pc c) = None \<longrightarrow> RemoteIP env c = Inl NilPointerDereference)
   \<and> (\<forall>desc. remoteDescription (pc c) = Some desc \<longrightarrow>
        RemoteIP env c = Inr (remoteIPFromSDP env (SDP desc)))"
  by (simp add: RemoteIP_def)

text \<open>Both cases on the concrete session.\<close>

theorem RemoteIP_of_description_witness:
  "remoteDescription (pc demo_conn) = Some \<lparr>SDP = ''v=0''\<rparr>
   \<and> RemoteIP demo_sdp_env demo_conn = Inr (remoteIPFromSDP demo_sdp_env ''v=0'')
   \<and> RemoteIP demo_sdp_env (demo_conn\<lparr>pc := \<lparr>remoteDescription = None, pc_closeCalls = 0\<rparr>\<rparr>)
       = Inl NilPointerDereference"
proof -
  have h: "remoteDescription (pc demo_conn) = Some \<lparr>SDP = ''v=0''\<rparr>"
    by (simp add: demo_conn_def)
  have n: "remoteDescription
      (pc (demo_conn\<lparr>pc := \<lparr>remoteDescription = None, pc_closeCalls = 0\<rparr>\<rparr>)) = None"
    by simp
  note a = RemoteIP_of_description
      [where env = demo_sdp_env, THEN conjunct2, THEN spec, THEN mp, OF h]
    RemoteIP_of_description [where env = demo_sdp_env, THEN conjunct1, THEN mp, OF n]
  show ?thesis
    using a h by simp
qed

section \<open>Properties of the broker client\<close>

lemma limited_stream_split:
  assumes "0 < m" and "m < length data" and "m \<le> n"
  shows "limited_stream n ((data, err) # rest)
    = (take m data @ fst (limited_stream (n - m) ((drop m data, err) # rest)),
       snd (limited_stream (n - m) ((drop m data, err) # rest)))"
proof (cases "n = m")
  case True
  with assms show ?thesis by simp
next
  case False
  with assms have nm: "m < n" by simp
  show ?thesis
  proof (cases "length data \<le> n")
    case True
    then have "length data - m \<le> n - m"
      by simp
    with True assms nm show ?thesis
      by (cases err) simp_all
  next
    case False
    with assms nm have "take n data = take m data @ take (n - m) (drop m data)"
      by (metis le_add_diff_inverse take_add)
    moreover from False nm have "\<not> length data - m \<le> n - m"
      by arith
    ultimately show ?thesis
      using False assms nm by simp
  qed
qed

lemma ReadAll_limited_stream:
  "N l = int n \<Longrightarrow>
     ReadAll free l b = (b @ fst (limited_stream n (R l)), snd (limited_stream n (R l)))"
proof (induction free l b arbitrary: n rule: ReadAll.induct)
  case (1 free l b)
  show ?case
  proof (cases "n = 0")
    case True
    then show ?thesis
      using "1.prems"
      by (cases "R l") (auto simp: ReadAll.simps [of free l b] LimitedReader_Read_def)
  next
    case False
    define k where "k = (if int n < int (Suc (free (length b))) then n else Suc (free (length b)))"
    have k: "0 < k" "k \<le> n"
      using False by (auto simp: k_def)
    show ?thesis
    proof (cases "R l")
      case Nil
      then show ?thesis
        using "1.prems" False
        by (simp add: ReadAll.simps [of free l b] LimitedReader_Read_def)
    next
      case (Cons chunk rest)
      obtain data err where chunk: "chunk = (data, err)" by (cases chunk)
      show ?thesis
      proof (cases "length data \<le> k")
        case True
        show ?thesis
        proof (cases err)
          case None
          have rd: "LimitedReader_Read l (Suc (free (length b)))
                = ((data, None), \<lparr>R = rest, N = int n - int (length data)\<rparr>)"
            using "1.prems" False Cons chunk True None
            by (auto simp: LimitedReader_Read_def k_def Let_def)
          have "ReadAll free \<lparr>R = rest, N = int n - int (length data)\<rparr> (b @ data)
              = ((b @ data) @ fst (limited_stream (n - length data) rest),
                 snd (limited_stream (n - length data) rest))"
            using "1.IH" [OF rd [symmetric] refl refl, of "n - length data"] True k
            by simp
          then show ?thesis
            using Cons chunk True None k False
            by (simp add: ReadAll.simps [of free l b] rd)
        next
          case (Some e)
          have rd: "LimitedReader_Read l (Suc (free (length b)))
                = ((data, Some e), \<lparr>R = rest, N = int n - int (length data)\<rparr>)"
            using "1.prems" False Cons chunk True Some
            by (auto simp: LimitedReader_Read_def k_def Let_def)
          then show ?thesis
            using Cons chunk True Some k False
            by (simp add: ReadAll.simps [of free l b])
        qed
      next
        case long: False
        have rd: "LimitedReader_Read l (Suc (free (length b)))
              = ((take k data, None), \<lparr>R = (drop k data, err) # rest, N = int n - int k\<rparr>)"
          using "1.prems" False Cons chunk long k
          by (auto simp: LimitedReader_Read_def k_def Let_def min_def)
        have "ReadAll free \<lparr>R = (drop k data, err) # rest, N = int n - int k\<rparr> (b @ take k data)
            = ((b @ take k data) @ fst (limited_stream (n - k) ((drop k data, err) # rest)),
               snd (limited_stream (n - k) ((drop k data, err) # rest)))"
          using "1.IH" [OF rd [symmetric] refl refl, of "n - k"] k
          by simp
        moreover have "limited_stream n ((data, err) # rest)
          = (take k data @ fst (limited_stream (n - k) ((drop k data, err) # rest)),
             snd (limited_stream (n - k) ((drop k data, err) # rest)))"
          using limited_stream_split [of k data n err rest] k long by simp
        ultimately show ?thesis
          using Cons chunk by (simp add: ReadAll.simps [of free l b] rd)
      qed
    qed
  qed
qed


lemma limited_stream_data: "fst (limited_stream n r) = take n (stream_data r)"
proof (induction n r rule: limited_stream.induct)
  case (1 n)
  then show ?case by simp
next
  case (2 n data err rest)
  then show ?case by (cases err) auto
qed

lemma limited_stream_err_short:
  "length (stream_data r) < n \<Longrightarrow> snd (limited_stream n r) = stream_err r"
proof (induction n r rule: limited_stream.induct)
  case (1 n)
  then show ?case by simp
next
  case (2 n data err rest)
  then show ?case by (cases err) auto
qed

lemma limited_stream_err_long:
  "n < length (stream_data r) \<Longrightarrow> snd (limited_stream n r) = None"
proof (induction n r rule: limited_stream.induct)
  case (1 n)
  then show ?case by simp
next
  case (2 n data err rest)
  then show ?case by (cases err) auto
qed

lemma limited_stream_err_clean:
  "stream_err r = None \<Longrightarrow> snd (limited_stream n r) = None"
proof (induction n r rule: limited_stream.induct)
  case (1 n)
  then show ?case by simp
next
  case (2 n data err rest)
  then show ?case by (cases err) (auto split: if_splits)
qed

lemma limited_stream_err_cases:
  "snd (limited_stream n r) = None \<or> snd (limited_stream n r) = stream_err r"
proof (induction n r rule: limited_stream.induct)
  case (1 n)
  then show ?case by simp
next
  case (2 n data err rest)
  then show ?case by (cases err) (auto split: if_splits)
qed

lemma int64_small: "0 \<le> x \<Longrightarrow> x < 2 ^ 63 \<Longrightarrow> int64 x = x"
  unfolding int64_def by (rule signed_take_bit_int_eq_self) simp_all

lemma limitedRead_limited_stream:
  assumes "0 \<le> limit" and "limit < 2 ^ 63 - 1"
  shows "limitedRead free r limit =
    (if snd (limited_stream (nat limit + 1) r) \<noteq> None
     then Inr (take (nat limit + 1) (stream_data r), snd (limited_stream (nat limit + 1) r))
     else if nat limit < length (stream_data r)
     then Inr (take (nat limit) (stream_data r), Some ErrUnexpectedEOF)
     else Inr (stream_data r, None))"
proof -
  have i: "int64 (limit + 1) = int (nat limit + 1)"
    using assms by (simp add: int64_small)
  have "ReadAll free \<lparr>R = r, N = int64 (limit + 1)\<rparr> []
      = (take (nat limit + 1) (stream_data r), snd (limited_stream (nat limit + 1) r))"
    using ReadAll_limited_stream [of "\<lparr>R = r, N = int64 (limit + 1)\<rparr>" "nat limit + 1" free "[]"] i
    by (simp add: limited_stream_data)
  then show ?thesis
    using assms i by (auto simp: limitedRead_def min_def)
qed



text \<open>
  Claim C9, as amended. For every reader and every limit \<open>L\<close> with \<open>0 \<le> L < 2^63 - 1\<close>,
  \<^verbatim>\<open>limitedRead\<close> returns (it does not panic), and
  \<^item> it returns at most \<open>L + 1\<close> bytes, and at most \<open>L\<close> bytes unless the error it returns
    is the underlying reader's own error, passed on with what had been read;
  \<^item> when the reader holds more than \<open>L\<close> bytes and either ends cleanly or holds more
    than \<open>L + 1\<close> bytes, the result is exactly the first \<open>L\<close> bytes with
    \<^verbatim>\<open>io.ErrUnexpectedEOF\<close>;
  \<^item> when the reader holds at most \<open>L\<close> bytes, the result is all of them with the
    reader's error (nil on a clean end).
\<close>

theorem limitedRead_bounded:
  assumes "0 \<le> limit" and "limit < 2 ^ 63 - 1"
  shows "\<exists>p err. limitedRead free r limit = Inr (p, err)
     \<and> length p \<le> nat limit + 1
     \<and> (length p \<le> nat limit \<or> (err \<noteq> None \<and> err = stream_err r))
     \<and> (nat limit < length (stream_data r)
          \<and> (stream_err r = None \<or> nat limit + 1 < length (stream_data r)) \<longrightarrow>
            p = take (nat limit) (stream_data r) \<and> err = Some ErrUnexpectedEOF)
     \<and> (length (stream_data r) \<le> nat limit \<longrightarrow> p = stream_data r \<and> err = stream_err r)"
proof (cases "snd (limited_stream (nat limit + 1) r) = None")
  case True
  have long: "nat limit < length (stream_data r) \<or> length (stream_data r) \<le> nat limit"
    by arith
  have short: "length (stream_data r) \<le> nat limit \<Longrightarrow> stream_err r = None"
    using limited_stream_err_short [of r "nat limit + 1"] True by simp
  show ?thesis
    using True short by (auto simp: limitedRead_limited_stream [OF assms])
next
  case False
  then have e: "snd (limited_stream (nat limit + 1) r) = stream_err r"
    using limited_stream_err_cases [of "nat limit + 1" r] by auto
  have "\<not> nat limit + 1 < length (stream_data r)"
    using limited_stream_err_long [of "nat limit + 1" r] False by auto
  moreover have "stream_err r \<noteq> None"
    using False e by simp
  ultimately show ?thesis
    using False e by (auto simp: limitedRead_limited_stream [OF assms])
qed

lemma int64_wraps: "int64 (2 ^ 63 - 1 + 1) = - (2 ^ 63)"
  by (simp add: int64_def signed_take_bit_eq_take_bit_shift take_bit_eq_mod)

lemma ReadAll_exhausted: "N l \<le> 0 \<Longrightarrow> ReadAll free l b = (b, None)"
  by (subst ReadAll.simps) (simp add: LimitedReader_Read_def)

text \<open>
  Claim C9 as stated fails on a reader that reports an error together with byte
  \<open>L + 1\<close>: with limit 2, a reader that delivers two bytes and then a third one with a
  connection reset gets all three bytes back, with the reader's error: more than 2
  bytes, and not the first 2 with \<^verbatim>\<open>io.ErrUnexpectedEOF\<close>. It also fails outside
  \<open>0 \<le> L < 2^63 - 1\<close>: with limit \<open>-1\<close> the slice expression panics, and with the
  largest limit \<open>limit + 1\<close> wraps around and nothing is read.
\<close>

theorem limitedRead_reader_error_counterexample:
  "limitedRead demo_free demo_reset_reader 2 = Inr ([1, 2, 3], Some (Err ''connection reset''))
   \<and> limitedRead demo_free demo_reset_reader (- 1) = Inl SliceBoundsOutOfRange
   \<and> limitedRead demo_free demo_reset_reader (2 ^ 63 - 1) = Inr ([], None)"
proof (intro conjI)
  show "limitedRead demo_free demo_reset_reader 2
      = Inr ([1, 2, 3], Some (Err ''connection reset''))"
    by (simp add: limitedRead_limited_stream demo_reset_reader_def)
  show "limitedRead demo_free demo_reset_reader (- 1) = Inl SliceBoundsOutOfRange"
    by (simp add: limitedRead_def int64_def ReadAll_exhausted)
  show "limitedRead demo_free demo_reset_reader (2 ^ 63 - 1) = Inr ([], None)"
    unfolding limitedRead_def int64_wraps by (simp add: ReadAll_exhausted)
qed

text \<open>The same reader with limit 1 (cut to one byte) and with limit 3 (all of it).\<close>

theorem limitedRead_bounded_witness:
  "limitedRead demo_free demo_reset_reader 1 = Inr ([1], Some ErrUnexpectedEOF)
   \<and> limitedRead demo_free demo_reset_reader 3 = Inr ([1, 2, 3], Some (Err ''connection reset''))"
proof -
  have d: "stream_data demo_reset_reader = [1, 2, 3]"
    "stream_err demo_reset_reader = Some (Err ''connection reset'')"
    by (simp_all add: demo_reset_reader_def)
  have h: "(0::int) \<le> 1" "(1::int) < 2 ^ 63 - 1" "(0::int) \<le> 3" "(3::int) < 2 ^ 63 - 1"
    by simp_all
  from limitedRead_bounded [OF h(1,2), of demo_free demo_reset_reader]
  have a: "limitedRead demo_free demo_reset_reader 1 = Inr ([1], Some ErrUnexpectedEOF)"
    by (auto simp: d)
  from limitedRead_bounded [OF h(3,4), of demo_free demo_reset_reader]
  have b: "limitedRead demo_free demo_reset_reader 3
      = Inr ([1, 2, 3], Some (Err ''connection reset''))"
    by (auto simp: d)
  show ?thesis using a b by simp
qed


lemma pollLoop_Cons:
  "pollLoop ops free sid natType T clock (rt # rts) = (res, polls) \<Longrightarrow>
    \<exists>poll rest. polls = poll # rest
      \<and> scheduled poll = T \<and> now_read poll = clock
      \<and> slept poll = max 0 (T - clock) \<and> started poll = max T clock
      \<and> next_scheduled poll = max (T + pollInterval) clock
      \<and> (rest = [] \<or>
          rest = snd (pollLoop ops free sid natType (max (T + pollInterval) clock)
                        (max T clock + rt_duration rt) rts))"
  by (auto simp: Let_def time_Sleep_def max_def
        split: sum.splits iteration.splits prod.splits if_splits)

lemma pollLoop_head:
  assumes "snd (pollLoop ops free sid natType T clock rts) \<noteq> []"
  shows "scheduled (hd (snd (pollLoop ops free sid natType T clock rts))) = T
       \<and> now_read (hd (snd (pollLoop ops free sid natType T clock rts))) = clock"
proof (cases rts)
  case Nil
  with assms show ?thesis by simp
next
  case (Cons rt rest)
  obtain res polls where r: "pollLoop ops free sid natType T clock (rt # rest) = (res, polls)"
    by (cases "pollLoop ops free sid natType T clock (rt # rest)") auto
  from pollLoop_Cons [OF r] show ?thesis
    unfolding Cons r by auto
qed

lemma pollLoop_each:
  "p \<in> set (snd (pollLoop ops free sid natType T clock rts)) \<Longrightarrow>
     next_scheduled p = max (scheduled p + pollInterval) (now_read p)
   \<and> slept p = max 0 (scheduled p - now_read p)
   \<and> started p = max (scheduled p) (now_read p)"
proof (induction rts arbitrary: T clock)
  case Nil
  then show ?case by simp
next
  case (Cons rt rts)
  obtain res polls where r: "pollLoop ops free sid natType T clock (rt # rts) = (res, polls)"
    by (cases "pollLoop ops free sid natType T clock (rt # rts)") auto
  from pollLoop_Cons [OF r] obtain poll rest where
    polls: "polls = poll # rest"
    and poll: "scheduled poll = T" "now_read poll = clock" "slept poll = max 0 (T - clock)"
      "started poll = max T clock" "next_scheduled poll = max (T + pollInterval) clock"
    and rest: "rest = [] \<or>
          rest = snd (pollLoop ops free sid natType (max (T + pollInterval) clock)
                        (max T clock + rt_duration rt) rts)"
    by blast
  from Cons.prems have "p \<in> set polls"
    unfolding r by simp
  then have "p = poll \<or> p \<in> set rest"
    by (simp add: polls)
  then show ?case
  proof
    assume "p = poll"
    with poll show ?thesis by simp
  next
    assume m: "p \<in> set rest"
    with rest have "rest = snd (pollLoop ops free sid natType (max (T + pollInterval) clock)
                        (max T clock + rt_duration rt) rts)"
      by auto
    with m Cons.IH show ?thesis by blast
  qed
qed

lemma pollLoop_chain:
  "Suc k < length (snd (pollLoop ops free sid natType T clock rts)) \<Longrightarrow>
     scheduled (snd (pollLoop ops free sid natType T clock rts) ! Suc k)
       = next_scheduled (snd (pollLoop ops free sid natType T clock rts) ! k)
   \<and> now_read (snd (pollLoop ops free sid natType T clock rts) ! Suc k)
       = started (snd (pollLoop ops free sid natType T clock rts) ! k) + rt_duration (rts ! k)"
proof (induction rts arbitrary: T clock k)
  case Nil
  then show ?case by simp
next
  case (Cons rt rts)
  obtain res polls where r: "pollLoop ops free sid natType T clock (rt # rts) = (res, polls)"
    by (cases "pollLoop ops free sid natType T clock (rt # rts)") auto
  from pollLoop_Cons [OF r] obtain poll rest where
    polls: "polls = poll # rest"
    and poll: "started poll = max T clock" "next_scheduled poll = max (T + pollInterval) clock"
    and rest: "rest = [] \<or>
          rest = snd (pollLoop ops free sid natType (max (T + pollInterval) clock)
                        (max T clock + rt_duration rt) rts)"
    by blast
  from Cons.prems have "Suc k < length polls"
    unfolding r by simp
  then have len: "k < length rest"
    by (simp add: polls)
  with rest have rest': "rest = snd (pollLoop ops free sid natType (max (T + pollInterval) clock)
                        (max T clock + rt_duration rt) rts)"
    by auto
  show ?case
  proof (cases k)
    case 0
    from len have "rest \<noteq> []" by auto
    then have "scheduled (hd rest) = max (T + pollInterval) clock
        \<and> now_read (hd rest) = max T clock + rt_duration rt"
      using pollLoop_head [of ops free sid natType "max (T + pollInterval) clock"
          "max T clock + rt_duration rt" rts] rest' by simp
    with \<open>rest \<noteq> []\<close> show ?thesis
      unfolding r by (simp add: polls 0 poll hd_conv_nth)
  next
    case (Suc j)
    with len have "Suc j < length rest" by simp
    with Cons.IH [of j "max (T + pollInterval) clock" "max T clock + rt_duration rt"] rest'
    show ?thesis
      unfolding r by (simp add: polls Suc)
  qed
qed

text \<open>
  Claim C8 (poll cadence). Along the iterations of the loop of \<^verbatim>\<open>pollOffer\<close>:
  \<^item> each iteration sleeps until the time it was scheduled for (not at all when that time
    is past) and sets the next scheduled time to the maximum of its own scheduled time
    plus \<open>pollInterval\<close> and of \<open>now\<close>;
  \<^item> so the scheduled time of an iteration is the scheduled time of the one before plus
    \<open>pollInterval\<close> (counted from the scheduled start, not from the completion), or
    \<open>now\<close> of the one before when that is later;
  \<^item> when the request of an iteration takes longer than \<open>pollInterval\<close>, the next
    iteration does not sleep: it polls at the time it reads as \<open>now\<close>;
  \<^item> the first iteration is scheduled for the time of the call and does not sleep.
\<close>

theorem pollOffer_cadence:
  assumes "polls = snd (pollOffer ops free sid currentNATType clock rts)"
  shows "(\<forall>k. k < length polls \<longrightarrow>
            next_scheduled (polls ! k) = max (scheduled (polls ! k) + pollInterval) (now_read (polls ! k))
          \<and> slept (polls ! k) = max 0 (scheduled (polls ! k) - now_read (polls ! k))
          \<and> started (polls ! k) = max (scheduled (polls ! k)) (now_read (polls ! k)))
       \<and> (\<forall>k. Suc k < length polls \<longrightarrow>
            scheduled (polls ! Suc k)
              = max (scheduled (polls ! k) + pollInterval) (now_read (polls ! k))
          \<and> now_read (polls ! Suc k) = started (polls ! k) + rt_duration (rts ! k))
       \<and> (\<forall>k. Suc k < length polls \<and> pollInterval < rt_duration (rts ! k) \<longrightarrow>
            slept (polls ! Suc k) = 0 \<and> started (polls ! Suc k) = now_read (polls ! Suc k))
       \<and> (polls \<noteq> [] \<longrightarrow> scheduled (polls ! 0) = clock \<and> slept (polls ! 0) = 0)"
proof -
  have each: "next_scheduled (polls ! k) = max (scheduled (polls ! k) + pollInterval) (now_read (polls ! k))
          \<and> slept (polls ! k) = max 0 (scheduled (polls ! k) - now_read (polls ! k))
          \<and> started (polls ! k) = max (scheduled (polls ! k)) (now_read (polls ! k))"
    if "k < length polls" for k
    using that pollLoop_each [of "polls ! k" ops free sid currentNATType clock clock rts]
    unfolding assms pollOffer_def by simp
  have chain: "scheduled (polls ! Suc k) = next_scheduled (polls ! k)
          \<and> now_read (polls ! Suc k) = started (polls ! k) + rt_duration (rts ! k)"
    if "Suc k < length polls" for k
    using that pollLoop_chain [of k ops free sid currentNATType clock clock rts]
    unfolding assms pollOffer_def by simp
  have late: "slept (polls ! Suc k) = 0 \<and> started (polls ! Suc k) = now_read (polls ! Suc k)"
    if "Suc k < length polls" and "pollInterval < rt_duration (rts ! k)" for k
  proof -
    have "0 < pollInterval"
      by (simp add: pollInterval_def)
    with that each [of k] each [of "Suc k"] chain [of k] show ?thesis
      by (auto simp: max_def)
  qed
  have chain': "scheduled (polls ! Suc k)
              = max (scheduled (polls ! k) + pollInterval) (now_read (polls ! k))
          \<and> now_read (polls ! Suc k) = started (polls ! k) + rt_duration (rts ! k)"
    if "Suc k < length polls" for k
    using that each [of k] chain [of k] by simp
  have first: "scheduled (polls ! 0) = clock \<and> slept (polls ! 0) = 0" if "polls \<noteq> []"
    using that pollLoop_head [of ops free sid currentNATType clock clock rts] each [of 0]
    unfolding assms pollOffer_def by (simp add: hd_conv_nth)
  show ?thesis
    using each chain' late first by blast
qed

text \<open>
  Three round trips of 7 s, 1 s and 1 s from time 1000: the second poll comes right after
  the first request, the third one is scheduled 5 s after the schedule of the second and
  sleeps 2 s.
\<close>

theorem pollOffer_cadence_witness:
  "map scheduled (snd (pollOffer demo_broker_ops demo_free ''sid'' ''unknown'' 1000 demo_roundtrips))
     = [1000, 5000001000, 10000001000]
   \<and> map now_read (snd (pollOffer demo_broker_ops demo_free ''sid'' ''unknown'' 1000 demo_roundtrips))
     = [1000, 7000001000, 8000001000]
   \<and> map slept (snd (pollOffer demo_broker_ops demo_free ''sid'' ''unknown'' 1000 demo_roundtrips))
     = [0, 0, 2000000000]
   \<and> pollInterval < rt_duration (demo_roundtrips ! 0)
   \<and> slept (snd (pollOffer demo_broker_ops demo_free ''sid'' ''unknown'' 1000 demo_roundtrips) ! Suc 0) = 0"
proof -
  have lr: "limitedRead demo_free [([118], None)] readLimit = Inr ([118], None)"
    by (simp add: limitedRead_limited_stream readLimit_def)
  have p: "snd (pollOffer demo_broker_ops demo_free ''sid'' ''unknown'' 1000 demo_roundtrips)
     = [\<lparr>scheduled = 1000, now_read = 1000, slept = 0, started = 1000,
         next_scheduled = 5000001000\<rparr>,
        \<lparr>scheduled = 5000001000, now_read = 7000001000, slept = 0,
         started = 7000001000, next_scheduled = 10000001000\<rparr>,
        \<lparr>scheduled = 10000001000, now_read = 8000001000, slept = 2000000000,
         started = 10000001000, next_scheduled = 15000001000\<rparr>]"
    by (simp add: pollOffer_def demo_roundtrips_def demo_broker_ops_def handleResponse_def
          StatusOK_def lr time_Sleep_def pollInterval_def Let_def)
  have h: "Suc 0 < length (snd (pollOffer demo_broker_ops demo_free ''sid'' ''unknown'' 1000
              demo_roundtrips))
      \<and> pollInterval < rt_duration (demo_roundtrips ! 0)"
    by (simp add: p) (simp add: demo_roundtrips_def pollInterval_def)
  note a = pollOffer_cadence [OF refl, THEN conjunct2, THEN conjunct2, THEN conjunct1,
      THEN spec, THEN mp, OF h]
  show ?thesis
    using a h by (simp add: p)
qed

section \<open>Properties of the supervised session\<close>

text \<open>
  The releases of \<^verbatim>\<open>runSession\<close> and of \<^verbatim>\<open>datachannelHandler\<close>, each on its own: one
  unless the process ends, and for \<^verbatim>\<open>runSession\<close> none when it has received from
  \<^verbatim>\<open>dataChan\<close>.
\<close>

lemma runSession_releases:
  "count_list (runSession sc) RetToken
     = (if ProcessExit \<in> set (runSession sc) then 0
        else if offer sc \<noteq> None \<and> fst (makePeerConnectionFromOffer sc) = (True, None)
                \<and> sendAnswer_err sc = None \<and> dataChan_received sc then 0
        else 1)"
  by (cases "offer sc"; cases "NewPeerConnection_err sc"; cases "SetRemoteDescription_err sc";
      cases "CreateAnswer_err sc"; cases "SetLocalDescription_err sc"; cases "pcClose_err sc";
      cases "sendAnswer_err sc")
     (simp_all add: runSession_def makePeerConnectionFromOffer_def sendAnswer_def)

lemma datachannelHandler_releases:
  "count_list (datachannelHandler sc) RetToken
     = (if ProcessExit \<in> set (datachannelHandler sc) then 0 else 1)"
  by (cases "dial_err sc") (simp_all add: datachannelHandler_def)

lemma runSession_no_GetToken: "count_list (runSession sc) GetToken = 0"
  by (cases "offer sc"; cases "NewPeerConnection_err sc"; cases "SetRemoteDescription_err sc";
      cases "CreateAnswer_err sc"; cases "SetLocalDescription_err sc"; cases "pcClose_err sc";
      cases "sendAnswer_err sc")
     (simp_all add: runSession_def makePeerConnectionFromOffer_def sendAnswer_def)

lemma datachannelHandler_no_GetToken: "count_list (datachannelHandler sc) GetToken = 0"
  by (cases "dial_err sc") (simp_all add: datachannelHandler_def)

text \<open>
  Where the token is conserved. In a session that does not end the process, in which
  \<^verbatim>\<open>makePeerConnectionFromOffer\<close> does not return \<^verbatim>\<open>nil, nil\<close>, and in which the data
  channel opens only while \<^verbatim>\<open>runSession\<close> waits for it without an error from
  \<^verbatim>\<open>sendAnswer\<close>, there is one acquisition and one release: by \<^verbatim>\<open>runSession\<close> on a nil
  offer, on a construction failure, on a failure of \<^verbatim>\<open>sendAnswer\<close> and on the timeout,
  and by the deferred call of \<^verbatim>\<open>datachannelHandler\<close> once the channel has opened.
\<close>

lemma session_one_release_elsewhere:
  assumes "ProcessExit \<notin> set (session sc)"
    and "handlerStarted sc \<longrightarrow> sendAnswer_err sc = None \<and> \<not> timer_first sc"
  shows "count_list (session sc) GetToken = 1 \<and> count_list (session sc) RetToken = 1"
proof -
  from assms(1) have r: "rand_ok sc" and nx: "ProcessExit \<notin> set (runSession sc)"
    and nh: "handlerStarted sc \<Longrightarrow> ProcessExit \<notin> set (datachannelHandler sc)"
    by (auto simp: session_def split: if_splits)
  show ?thesis
  proof (cases "handlerStarted sc")
    case True
    with assms(2) have "dataChan_received sc" "sendAnswer_err sc = None"
      by (simp_all add: handlerStarted_def dataChan_received_def)
    with True r nx nh show ?thesis
      by (simp add: session_def runSession_releases
            datachannelHandler_releases runSession_no_GetToken datachannelHandler_no_GetToken
            handlerStarted_def)
  next
    case False
    then have "\<not> (offer sc \<noteq> None \<and> fst (makePeerConnectionFromOffer sc) = (True, None)
                \<and> sendAnswer_err sc = None \<and> dataChan_received sc)"
      by (auto simp: handlerStarted_def dataChan_received_def)
    with False r nx show ?thesis
      by (simp add: session_def runSession_releases runSession_no_GetToken)
  qed
qed

lemma session_releases_at_most_twice:
  "count_list (session sc) GetToken = 1 \<and> count_list (session sc) RetToken \<le> 2"
  by (simp add: session_def runSession_releases
        datachannelHandler_releases runSession_no_GetToken datachannelHandler_no_GetToken)

text \<open>
  Claim C1 (token conservation) against the code. The claim holds on the paths of the
  lemma above; the code breaks it in two places.
  \<^item> A construction failure that is not reported: when \<^verbatim>\<open>pc.SetLocalDescription\<close> fails and
    the \<^verbatim>\<open>pc.Close()\<close> that follows succeeds, \<^verbatim>\<open>makePeerConnectionFromOffer\<close> returns
    \<^verbatim>\<open>nil, nil\<close>; \<^verbatim>\<open>runSession\<close> goes on to \<^verbatim>\<open>sendAnswer\<close> with the nil connection, which
    panics: the token taken is never released.
  \<^item> Two releases for one acquisition: when the data channel opens in a session in which
    \<^verbatim>\<open>sendAnswer\<close> returns an error, or opens after the timer has delivered, \<^verbatim>\<open>runSession\<close>
    releases the token and the deferred call of \<^verbatim>\<open>datachannelHandler\<close> releases it again.
\<close>

theorem session_token_not_conserved:
  "fst (makePeerConnectionFromOffer demo_SetLocalDescription_fails) = (False, None)
   \<and> session demo_SetLocalDescription_fails = [GetToken, PcClose, ProcessExit]
   \<and> count_list (session demo_SetLocalDescription_fails) RetToken = 0
   \<and> session demo_answer_error_channel_opens
       = [GetToken, PcClose, RetToken, CopyLoopDone, WsClose, RetToken, ConnClose]
   \<and> count_list (session demo_answer_error_channel_opens) RetToken = 2
   \<and> session demo_channel_opens_late
       = [GetToken, PcClose, RetToken, CopyLoopDone, WsClose, RetToken, ConnClose]
   \<and> count_list (session demo_channel_opens_late) RetToken = 2
   \<and> session demo_scenario = [GetToken, CopyLoopDone, WsClose, RetToken, ConnClose]"
  by (simp add: session_def runSession_def datachannelHandler_def handlerStarted_def
        makePeerConnectionFromOffer_def sendAnswer_def dataChan_received_def
        demo_scenario_def demo_SetLocalDescription_fails_def
        demo_answer_error_channel_opens_def demo_channel_opens_late_def)

end
